theory Spec2Isabelle
  imports Main
begin

section \<open>Values shared by every layer\<close>

text \<open>
  Timestamps are the readings of \<open>utc_now()\<close>, counted in microseconds. Each request
  is served at a reading of the clock; the insert of a note reads the clock again, once
  for each column default.
\<close>

type_synonym datetime = int

definition timedelta_minutes :: "int \<Rightarrow> int" where
  "timedelta_minutes m = m * 60000000"

text \<open>Python's \<open>str(int)\<close>, used by the f-strings of the 404 details.\<close>

fun str_nat :: "nat \<Rightarrow> string" where
  "str_nat n =
     (if n < 10 then [char_of (48 + n)]
      else str_nat (n div 10) @ [char_of (48 + n mod 10)])"

definition str_int :: "int \<Rightarrow> string" where
  "str_int i = (if i < 0 then CHR ''-'' # str_nat (nat (- i)) else str_nat (nat i))"

section \<open>app/core/config.py\<close>

definition SECRET_KEY :: string where
  "SECRET_KEY = ''09d25e094faa6ca2556c818166b7a9563b93f7099f6f0f4caa6cf63b88e8d3e7''"

definition ACCESS_TOKEN_EXPIRE_MINUTES :: int where
  "ACCESS_TOKEN_EXPIRE_MINUTES = 30"

section \<open>app/core/security.py\<close>

text \<open>
  Modelled from the spec: \<open>app/core/security.py\<close> (the Credential Store and the Token
  Service: \<open>get_password_hash\<close>, \<open>verify_password\<close>, \<open>create_access_token\<close> and
  \<open>get_current_user\<close>) is imported by the sources but is not among them. A digest is the
  symbolic pair of the salt drawn for it and the plaintext it hides; a token is the
  symbolic triple of subject, absolute expiry and the key that signed it, or an arbitrary
  malformed string.
\<close>

datatype digest = Digest (digest_salt: string) (digest_plain: string)

datatype token = JWT (sub: string) (exp: datetime) (signing_key: string) | Malformed string

text \<open>Modelled from the spec: \<open>hash(plaintext) -> digest\<close>, uniquely salted.\<close>

definition get_password_hash :: "string \<Rightarrow> string \<Rightarrow> digest" where
  "get_password_hash salt password = Digest salt password"

text \<open>Modelled from the spec: \<open>verify(plaintext, digest) -> bool\<close>, false on any mismatch.\<close>

definition verify_password :: "string \<Rightarrow> digest \<Rightarrow> bool" where
  "verify_password plain_password hashed_password = (digest_plain hashed_password = plain_password)"

text \<open>
  Modelled from the spec: \<open>issue(subject, ttl) -> token\<close> encodes the subject and an
  absolute expiry and signs them with the process-wide secret.
\<close>

definition create_access_token :: "datetime \<Rightarrow> string \<Rightarrow> int \<Rightarrow> token" where
  "create_access_token now subject expires_delta = JWT subject (now + expires_delta) SECRET_KEY"

text \<open>
  Modelled from the spec: \<open>verify(token) -> subject | fails\<close> fails if the signature does
  not verify, the token is malformed, or the encoded expiry is in the past.
\<close>

definition verify_token :: "datetime \<Rightarrow> token \<Rightarrow> string option" where
  "verify_token now tok =
     (case tok of
        Malformed _ \<Rightarrow> None
      | JWT subject expiry k \<Rightarrow>
          if k \<noteq> SECRET_KEY then None
          else if expiry < now then None
          else Some subject)"

section \<open>JSON bodies and responses\<close>

datatype json = JNull | JStr string | JInt int | JBool bool | JTime datetime | JTok token

type_synonym json_dict = "string \<rightharpoonup> json"

type_synonym json_obj = "(string \<times> json) list"

datatype content =
    Obj json_obj
  | Arr "json_obj list"
  | NoContent
  | PlainText string
  | ValidationErrors

datatype response =
  Response (status_code: nat) (headers: "(string \<times> string) list") (content: content)

text \<open>\<open>raise HTTPException(status_code, detail, headers)\<close> as the framework renders it.\<close>

definition http_exception :: "nat \<Rightarrow> string \<Rightarrow> (string \<times> string) list \<Rightarrow> response" where
  "http_exception code detail hdrs = Response code hdrs (Obj [(''detail'', JStr detail)])"

text \<open>The framework's answer to a body that fails the schema of the route.\<close>

definition request_validation_error :: response where
  "request_validation_error = Response 422 [] ValidationErrors"

text \<open>The framework's answer to an exception no handler catches.\<close>

definition internal_server_error :: response where
  "internal_server_error = Response 500 [] (PlainText ''Internal Server Error'')"

section \<open>app/models\<close>

record User =
  u_id :: int
  u_username :: string
  u_hashed_password :: digest
  u_created_at :: datetime

text \<open>
  The attributes of a \<open>Note\<close> object. \<open>title\<close> is declared \<open>nullable=False\<close>, yet the
  attribute of the Python object can hold \<open>None\<close>; the column constraint is checked when a
  row is written (\<open>crud_note_create_note\<close>, \<open>flush_update_note\<close>).
\<close>

record Note =
  n_id :: int
  n_title :: "string option"
  n_body :: "string option"
  n_user_id :: int
  n_created_at :: datetime
  n_updated_at :: datetime

section \<open>The storage collaborator\<close>

text \<open>
  The relational store: two tables in storage order, the two primary-key sequences, and
  the log of the statements issued so far. Of the limits of the engine, the declared
  length of \<open>notes.title\<close> is checked where a note is inserted; the range of an integer
  and a negative \<open>OFFSET\<close> or \<open>LIMIT\<close> are outside the model.
\<close>

datatype table_name = UsersTable | NotesTable

datatype statement = SELECT table_name | INSERT table_name | UPDATE table_name | DELETE table_name

datatype storage_error = IntegrityError | DataError | StaleDataError | InvalidRequestError

record db =
  user_rows :: "User list"
  note_rows :: "Note list"
  users_id_seq :: int
  notes_id_seq :: int
  statements :: "statement list"

definition init_db :: db where
  "init_db = \<lparr>user_rows = [], note_rows = [], users_id_seq = 1, notes_id_seq = 1, statements = []\<rparr>"

definition issue :: "statement \<Rightarrow> db \<Rightarrow> db" where
  "issue s d = d\<lparr>statements := statements d @ [s]\<rparr>"

section \<open>app/schemas\<close>

text \<open>
  A schema is the record of its validated fields together with the validation of a parsed
  JSON object against it: \<open>None\<close> when the framework rejects the body. Keys the schema
  does not name are ignored.
\<close>

text \<open>A field of a model whose default applies when the key is absent: was it set?\<close>

datatype 'a fld = Unset | IsSet 'a

text \<open>A required \<open>str\<close>.\<close>

definition validate_str :: "json option \<Rightarrow> string option" where
  "validate_str v = (case v of Some (JStr s) \<Rightarrow> Some s | _ \<Rightarrow> None)"

text \<open>A required \<open>str\<close> declared with \<open>Field(..., min_length, max_length)\<close>.\<close>

definition validate_str_len :: "nat \<Rightarrow> nat \<Rightarrow> json option \<Rightarrow> string option" where
  "validate_str_len min_length max_length v =
     (case v of
        Some (JStr s) \<Rightarrow> if min_length \<le> length s \<and> length s \<le> max_length then Some s else None
      | _ \<Rightarrow> None)"

text \<open>An \<open>Optional[str] = None\<close>: absent, an explicit null, or a string.\<close>

definition validate_optional_str :: "json option \<Rightarrow> string option fld option" where
  "validate_optional_str v =
     (case v of
        None \<Rightarrow> Some Unset
      | Some JNull \<Rightarrow> Some (IsSet None)
      | Some (JStr s) \<Rightarrow> Some (IsSet (Some s))
      | _ \<Rightarrow> None)"

text \<open>Reading a field: the default \<open>None\<close> when it was not set.\<close>

definition fld_value :: "'a option fld \<Rightarrow> 'a option" where
  "fld_value f = (case f of Unset \<Rightarrow> None | IsSet v \<Rightarrow> v)"

subsection \<open>app/schemas/auth.py\<close>

record UserCreate =
  uc_username :: string
  uc_password :: string

definition validate_UserCreate :: "json_dict \<Rightarrow> UserCreate option" where
  "validate_UserCreate body =
     (case validate_str_len 3 50 (body ''username'') of
        None \<Rightarrow> None
      | Some username \<Rightarrow>
          (case validate_str_len 6 72 (body ''password'') of
             None \<Rightarrow> None
           | Some password \<Rightarrow> Some \<lparr>uc_username = username, uc_password = password\<rparr>))"

record UserLogin =
  ul_username :: string
  ul_password :: string

definition validate_UserLogin :: "json_dict \<Rightarrow> UserLogin option" where
  "validate_UserLogin body =
     (case validate_str (body ''username'') of
        None \<Rightarrow> None
      | Some username \<Rightarrow>
          (case validate_str (body ''password'') of
             None \<Rightarrow> None
           | Some password \<Rightarrow> Some \<lparr>ul_username = username, ul_password = password\<rparr>))"

text \<open>\<open>Token(access_token=..., token_type="bearer")\<close> as the response carries it.\<close>

definition Token :: "token \<Rightarrow> string \<Rightarrow> json_obj" where
  "Token access_token token_type =
     [(''access_token'', JTok access_token), (''token_type'', JStr token_type)]"

text \<open>\<open>response_model=UserRead\<close>, read from the attributes of the \<open>User\<close> object.\<close>

definition UserRead :: "User \<Rightarrow> json_obj" where
  "UserRead u =
     [(''id'', JInt (u_id u)), (''username'', JStr (u_username u)),
      (''created_at'', JTime (u_created_at u))]"

subsection \<open>app/schemas/note.py\<close>

record NoteCreate =
  nc_title :: string
  nc_body :: "string option"

definition validate_NoteCreate :: "json_dict \<Rightarrow> NoteCreate option" where
  "validate_NoteCreate body =
     (case validate_str (body ''title'') of
        None \<Rightarrow> None
      | Some t \<Rightarrow>
          (case validate_optional_str (body ''body'') of
             None \<Rightarrow> None
           | Some b \<Rightarrow> Some \<lparr>nc_title = t, nc_body = fld_value b\<rparr>))"

record NoteUpdate =
  nu_title :: "string option fld"
  nu_body :: "string option fld"

definition validate_NoteUpdate :: "json_dict \<Rightarrow> NoteUpdate option" where
  "validate_NoteUpdate body =
     (case validate_optional_str (body ''title'') of
        None \<Rightarrow> None
      | Some t \<Rightarrow>
          (case validate_optional_str (body ''body'') of
             None \<Rightarrow> None
           | Some b \<Rightarrow> Some \<lparr>nu_title = t, nu_body = b\<rparr>))"

text \<open>\<open>note_in.model_dump(exclude_unset=True)\<close>: the items of the fields that were set.\<close>

definition model_dump_exclude_unset :: "NoteUpdate \<Rightarrow> (string \<times> string option) list" where
  "model_dump_exclude_unset note_in =
     (case nu_title note_in of Unset \<Rightarrow> [] | IsSet v \<Rightarrow> [(''title'', v)]) @
     (case nu_body note_in of Unset \<Rightarrow> [] | IsSet v \<Rightarrow> [(''body'', v)])"

text \<open>
  \<open>response_model=NoteRead\<close>, read from the attributes of the \<open>Note\<close> object. \<open>title: str\<close>
  does not admit \<open>None\<close>: the response fails validation there.
\<close>

definition NoteRead :: "Note \<Rightarrow> json_obj option" where
  "NoteRead n =
     (case n_title n of
        None \<Rightarrow> None
      | Some t \<Rightarrow>
          Some [(''id'', JInt (n_id n)), (''title'', JStr t),
                (''body'', (case n_body n of None \<Rightarrow> JNull | Some b \<Rightarrow> JStr b)),
                (''created_at'', JTime (n_created_at n)),
                (''updated_at'', JTime (n_updated_at n))])"

text \<open>\<open>response_model=list[NoteRead]\<close>: every element has to validate.\<close>

fun NoteRead_list :: "Note list \<Rightarrow> json_obj list option" where
  "NoteRead_list [] = Some []"
| "NoteRead_list (n # ns) =
     (case NoteRead n of
        None \<Rightarrow> None
      | Some j \<Rightarrow> (case NoteRead_list ns of None \<Rightarrow> None | Some js \<Rightarrow> Some (j # js)))"

section \<open>app/crud/user.py\<close>

definition crud_user_get_user_by_username :: "db \<Rightarrow> string \<Rightarrow> User option \<times> db" where
  "crud_user_get_user_by_username d username =
     (find (\<lambda>u. u_username u = username) (user_rows d), issue (SELECT UsersTable) d)"

text \<open>
  \<open>db.add; db.commit; db.refresh\<close>: the row takes the next value of the sequence and the
  clock's reading; \<open>username\<close> is declared \<open>unique=True\<close>. A value drawn from the
  sequence is consumed even when the insert is refused. The salt is the one the
  Credential Store draws for this digest.
\<close>

definition crud_user_create_user ::
  "db \<Rightarrow> datetime \<Rightarrow> string \<Rightarrow> UserCreate \<Rightarrow> (storage_error + User) \<times> db" where
  "crud_user_create_user d now salt user_in =
     (let hashed_password = get_password_hash salt (uc_password user_in);
          db_user = \<lparr>u_id = users_id_seq d, u_username = uc_username user_in,
                     u_hashed_password = hashed_password, u_created_at = now\<rparr>;
          d1 = issue (INSERT UsersTable) (d\<lparr>users_id_seq := users_id_seq d + 1\<rparr>)
      in if \<exists>u \<in> set (user_rows d). u_username u = uc_username user_in
         then (Inl IntegrityError, d1)
         else (Inr db_user, issue (SELECT UsersTable) (d1\<lparr>user_rows := user_rows d @ [db_user]\<rparr>)))"

definition crud_user_authenticate_user :: "db \<Rightarrow> string \<Rightarrow> string \<Rightarrow> User option \<times> db" where
  "crud_user_authenticate_user d username password =
     (case crud_user_get_user_by_username d username of
        (None, d1) \<Rightarrow> (None, d1)
      | (Some u, d1) \<Rightarrow>
          if \<not> verify_password password (u_hashed_password u) then (None, d1)
          else (Some u, d1))"

section \<open>app/crud/note.py\<close>

definition crud_note_get_note :: "db \<Rightarrow> int \<Rightarrow> int \<Rightarrow> Note option \<times> db" where
  "crud_note_get_note d note_id user_id =
     (find (\<lambda>n. n_id n = note_id \<and> n_user_id n = user_id) (note_rows d),
      issue (SELECT NotesTable) d)"

definition crud_note_get_notes :: "db \<Rightarrow> int \<Rightarrow> nat \<Rightarrow> nat \<Rightarrow> Note list \<times> db" where
  "crud_note_get_notes d user_id skip limit =
     (take limit (drop skip (filter (\<lambda>n. n_user_id n = user_id) (note_rows d))),
      issue (SELECT NotesTable) d)"

text \<open>
  \<open>db.add; db.commit; db.refresh\<close>. The insert reads the clock once for each of the two
  column defaults, \<open>created_at\<close> first. \<open>title\<close> is a \<open>String(255)\<close>, \<open>nullable=False\<close>, and
  \<open>user_id\<close> references \<open>users.id\<close>; the engine refuses a longer title before it checks the
  constraints. A value drawn from the sequence is consumed even when the insert is refused.
\<close>

definition crud_note_create_note ::
  "db \<Rightarrow> datetime \<Rightarrow> datetime \<Rightarrow> NoteCreate \<Rightarrow> int \<Rightarrow> (storage_error + Note) \<times> db" where
  "crud_note_create_note d created_now updated_now note_in user_id =
     (let db_note = \<lparr>n_id = notes_id_seq d, n_title = Some (nc_title note_in),
                     n_body = nc_body note_in, n_user_id = user_id,
                     n_created_at = created_now, n_updated_at = updated_now\<rparr>;
          d1 = issue (INSERT NotesTable) (d\<lparr>notes_id_seq := notes_id_seq d + 1\<rparr>)
      in if 255 < length (nc_title note_in) then (Inl DataError, d1)
         else if n_title db_note = None \<or> \<not> (\<exists>u \<in> set (user_rows d). u_id u = user_id)
         then (Inl IntegrityError, d1)
         else (Inr db_note, issue (SELECT NotesTable) (d1\<lparr>note_rows := note_rows d @ [db_note]\<rparr>)))"

text \<open>\<open>setattr(note, field, value)\<close> on the two fields a \<open>NoteUpdate\<close> can carry.\<close>

definition setattr :: "Note \<Rightarrow> string \<Rightarrow> string option \<Rightarrow> Note" where
  "setattr n field v =
     (if field = ''title'' then n\<lparr>n_title := v\<rparr>
      else if field = ''body'' then n\<lparr>n_body := v\<rparr>
      else n)"

text \<open>The loop \<open>for field, value in update_data.items(): setattr(note, field, value)\<close>.\<close>

fun setattr_items :: "Note \<Rightarrow> (string \<times> string option) list \<Rightarrow> Note" where
  "setattr_items n [] = n"
| "setattr_items n ((field, v) # items) = setattr_items (setattr n field v) items"

text \<open>
  \<open>db.commit()\<close> after the loop. The unit of work writes the columns whose value differs
  from the loaded one; when there is none, no \<open>UPDATE\<close> is issued. An \<open>UPDATE\<close> that is
  issued also sets \<open>updated_at\<close> (\<open>onupdate=utc_now\<close>), is refused when it would store a
  null \<open>title\<close>, and has to match the row of the object. The length of a new title is
  not checked here.
\<close>

definition flush_update_note :: "db \<Rightarrow> datetime \<Rightarrow> Note \<Rightarrow> Note \<Rightarrow> storage_error + db" where
  "flush_update_note d now loaded note =
     (if n_title note = n_title loaded \<and> n_body note = n_body loaded then Inr d
      else
        let d1 = issue (UPDATE NotesTable) d
        in if \<not> (\<exists>r \<in> set (note_rows d). n_id r = n_id note) then Inl StaleDataError
           else if n_title note \<noteq> n_title loaded \<and> n_title note = None then Inl IntegrityError
           else Inr (d1\<lparr>note_rows :=
                  map (\<lambda>r. if n_id r = n_id note
                            then r\<lparr>n_title := (if n_title note = n_title loaded then n_title r else n_title note),
                                   n_body := (if n_body note = n_body loaded then n_body r else n_body note),
                                   n_updated_at := now\<rparr>
                            else r)
                      (note_rows d)\<rparr>))"

text \<open>\<open>db.refresh(note)\<close>: the attributes are read again from the row of the object.\<close>

definition refresh_note :: "db \<Rightarrow> Note \<Rightarrow> (storage_error + Note) \<times> db" where
  "refresh_note d note =
     (case find (\<lambda>r. n_id r = n_id note) (note_rows d) of
        None \<Rightarrow> (Inl InvalidRequestError, issue (SELECT NotesTable) d)
      | Some r \<Rightarrow> (Inr r, issue (SELECT NotesTable) d))"

definition crud_note_update_note ::
  "db \<Rightarrow> datetime \<Rightarrow> Note \<Rightarrow> NoteUpdate \<Rightarrow> (storage_error + Note) \<times> db" where
  "crud_note_update_note d now note note_in =
     (let update_data = model_dump_exclude_unset note_in;
          note1 = setattr_items note update_data
      in case flush_update_note d now note note1 of
           Inl e \<Rightarrow> (Inl e, issue (UPDATE NotesTable) d)
         | Inr d1 \<Rightarrow> refresh_note d1 note1)"

definition crud_note_delete_note :: "db \<Rightarrow> Note \<Rightarrow> db" where
  "crud_note_delete_note d note =
     issue (DELETE NotesTable) (d\<lparr>note_rows := filter (\<lambda>r. n_id r \<noteq> n_id note) (note_rows d)\<rparr>)"

section \<open>Request-scoped dependencies\<close>

text \<open>
  Modelled from the spec: \<open>get_current_user\<close> of \<open>app/core/security.py\<close> is not among the
  sources. Every note route requires a valid bearer token resolved to a \<open>User\<close>; absence or
  invalidity of the token yields 401 before any repository access. The subject of a token
  is a username (\<open>login\<close> issues it so), looked up in the User Directory; a subject that
  names no user is refused as well.
\<close>

definition get_current_user :: "db \<Rightarrow> datetime \<Rightarrow> token option \<Rightarrow> (response + User) \<times> db" where
  "get_current_user d now authorization =
     (case authorization of
        None \<Rightarrow> (Inl (http_exception 401 ''Unauthenticated'' []), d)
      | Some tok \<Rightarrow>
          (case verify_token now tok of
             None \<Rightarrow> (Inl (http_exception 401 ''InvalidToken'' []), d)
           | Some subject \<Rightarrow>
               (case crud_user_get_user_by_username d subject of
                  (None, d1) \<Rightarrow> (Inl (http_exception 401 ''InvalidToken'' []), d1)
                | (Some u, d1) \<Rightarrow> (Inr u, d1))))"

section \<open>app/api/v1/auth.py\<close>

text \<open>
  A handler takes the store, the clock's reading, what the request carries, and returns
  the response with the store it leaves. The framework resolves the dependencies of a
  route first, validates the body next, and only then calls the function.
\<close>

definition register :: "db \<Rightarrow> datetime \<Rightarrow> string \<Rightarrow> json_dict \<Rightarrow> response \<times> db" where
  "register d now salt body =
     (case validate_UserCreate body of
        None \<Rightarrow> (request_validation_error, d)
      | Some user_in \<Rightarrow>
          (case crud_user_get_user_by_username d (uc_username user_in) of
             (Some existing_user, d1) \<Rightarrow>
               (http_exception 400 ''Username already registered'' [], d1)
           | (None, d1) \<Rightarrow>
               (case crud_user_create_user d1 now salt user_in of
                  (Inl e, d2) \<Rightarrow> (internal_server_error, d2)
                | (Inr u, d2) \<Rightarrow> (Response 201 [] (Obj (UserRead u)), d2))))"

definition login :: "db \<Rightarrow> datetime \<Rightarrow> json_dict \<Rightarrow> response \<times> db" where
  "login d now body =
     (case validate_UserLogin body of
        None \<Rightarrow> (request_validation_error, d)
      | Some user_login \<Rightarrow>
          (case crud_user_authenticate_user d (ul_username user_login) (ul_password user_login) of
             (None, d1) \<Rightarrow>
               (http_exception 401 ''Incorrect username or password''
                  [(''WWW-Authenticate'', ''Bearer'')], d1)
           | (Some u, d1) \<Rightarrow>
               (let access_token_expires = timedelta_minutes ACCESS_TOKEN_EXPIRE_MINUTES;
                    access_token = create_access_token now (u_username u) access_token_expires
                in (Response 200 [] (Obj (Token access_token ''bearer'')), d1))))"

section \<open>app/api/v1/notes.py\<close>

definition note_not_found :: "int \<Rightarrow> response" where
  "note_not_found note_id =
     http_exception 404 (''Note with id '' @ str_int note_id @ '' not found'') []"

text \<open>A \<open>Note\<close> returned through \<open>response_model=NoteRead\<close>.\<close>

definition note_response :: "nat \<Rightarrow> Note \<Rightarrow> response" where
  "note_response code n =
     (case NoteRead n of
        None \<Rightarrow> internal_server_error
      | Some j \<Rightarrow> Response code [] (Obj j))"

text \<open>
  \<open>now\<close> is the reading at which the token is examined; \<open>created_now\<close> and \<open>updated_now\<close>
  are the two readings of the insert.
\<close>

definition create_note ::
  "db \<Rightarrow> datetime \<Rightarrow> token option \<Rightarrow> json_dict \<Rightarrow> datetime \<Rightarrow> datetime \<Rightarrow> response \<times> db" where
  "create_note d now authorization body created_now updated_now =
     (case get_current_user d now authorization of
        (Inl denied, d1) \<Rightarrow> (denied, d1)
      | (Inr current_user, d1) \<Rightarrow>
          (case validate_NoteCreate body of
             None \<Rightarrow> (request_validation_error, d1)
           | Some note_in \<Rightarrow>
               (case crud_note_create_note d1 created_now updated_now note_in (u_id current_user) of
                  (Inl e, d2) \<Rightarrow> (internal_server_error, d2)
                | (Inr db_note, d2) \<Rightarrow> (note_response 201 db_note, d2))))"

definition read_notes :: "db \<Rightarrow> datetime \<Rightarrow> token option \<Rightarrow> nat \<Rightarrow> nat \<Rightarrow> response \<times> db" where
  "read_notes d now authorization skip limit =
     (case get_current_user d now authorization of
        (Inl denied, d1) \<Rightarrow> (denied, d1)
      | (Inr current_user, d1) \<Rightarrow>
          (case crud_note_get_notes d1 (u_id current_user) skip limit of
             (ns, d2) \<Rightarrow>
               (case NoteRead_list ns of
                  None \<Rightarrow> (internal_server_error, d2)
                | Some js \<Rightarrow> (Response 200 [] (Arr js), d2))))"

definition read_note :: "db \<Rightarrow> datetime \<Rightarrow> token option \<Rightarrow> int \<Rightarrow> response \<times> db" where
  "read_note d now authorization note_id =
     (case get_current_user d now authorization of
        (Inl denied, d1) \<Rightarrow> (denied, d1)
      | (Inr current_user, d1) \<Rightarrow>
          (case crud_note_get_note d1 note_id (u_id current_user) of
             (None, d2) \<Rightarrow> (note_not_found note_id, d2)
           | (Some n, d2) \<Rightarrow> (note_response 200 n, d2)))"

definition update_note ::
  "db \<Rightarrow> datetime \<Rightarrow> token option \<Rightarrow> int \<Rightarrow> json_dict \<Rightarrow> response \<times> db" where
  "update_note d now authorization note_id body =
     (case get_current_user d now authorization of
        (Inl denied, d1) \<Rightarrow> (denied, d1)
      | (Inr current_user, d1) \<Rightarrow>
          (case validate_NoteUpdate body of
             None \<Rightarrow> (request_validation_error, d1)
           | Some note_in \<Rightarrow>
               (case crud_note_get_note d1 note_id (u_id current_user) of
                  (None, d2) \<Rightarrow> (note_not_found note_id, d2)
                | (Some n, d2) \<Rightarrow>
                    (case crud_note_update_note d2 now n note_in of
                       (Inl e, d3) \<Rightarrow> (internal_server_error, d3)
                     | (Inr n1, d3) \<Rightarrow> (note_response 200 n1, d3)))))"

definition delete_note :: "db \<Rightarrow> datetime \<Rightarrow> token option \<Rightarrow> int \<Rightarrow> response \<times> db" where
  "delete_note d now authorization note_id =
     (case get_current_user d now authorization of
        (Inl denied, d1) \<Rightarrow> (denied, d1)
      | (Inr current_user, d1) \<Rightarrow>
          (case crud_note_get_note d1 note_id (u_id current_user) of
             (None, d2) \<Rightarrow> (note_not_found note_id, d2)
           | (Some n, d2) \<Rightarrow> (Response 204 [] NoContent, crud_note_delete_note d2 n)))"

section \<open>app/main.py\<close>

text \<open>
  The body of a request as the framework receives it. It decodes a body sent as JSON
  before it resolves any dependency of the route, and answers bytes that do not decode
  with 422 at once; a body that is absent, is not sent as JSON, or decodes to something
  other than a JSON object fails the schema of the route after the dependencies have been
  resolved.
\<close>

datatype payload = Undecodable | NotAnObject | Object json_dict

text \<open>A route with a body field, reached with a decoded body that is not an object.\<close>

definition refuse_body :: "db \<Rightarrow> datetime \<Rightarrow> token option \<Rightarrow> response \<times> db" where
  "refuse_body d now authorization =
     (case get_current_user d now authorization of
        (Inl denied, d1) \<Rightarrow> (denied, d1)
      | (Inr current_user, d1) \<Rightarrow> (request_validation_error, d1))"

text \<open>
  The requests under \<open>/notes\<close>. A creation carries the two readings of the clock that its
  insert takes.
\<close>

datatype notes_request =
    CreateNote datetime datetime payload
  | ReadNotes nat nat
  | ReadNote int
  | UpdateNote int payload
  | DeleteNote int

text \<open>The router mounted under \<open>/notes\<close>.\<close>

fun notes_router :: "db \<Rightarrow> datetime \<Rightarrow> token option \<Rightarrow> notes_request \<Rightarrow> response \<times> db" where
  "notes_router d now authorization (CreateNote created_now updated_now Undecodable) =
     (request_validation_error, d)"
| "notes_router d now authorization (CreateNote created_now updated_now NotAnObject) =
     refuse_body d now authorization"
| "notes_router d now authorization (CreateNote created_now updated_now (Object body)) =
     create_note d now authorization body created_now updated_now"
| "notes_router d now authorization (ReadNotes skip limit) = read_notes d now authorization skip limit"
| "notes_router d now authorization (ReadNote note_id) = read_note d now authorization note_id"
| "notes_router d now authorization (UpdateNote note_id Undecodable) = (request_validation_error, d)"
| "notes_router d now authorization (UpdateNote note_id NotAnObject) = refuse_body d now authorization"
| "notes_router d now authorization (UpdateNote note_id (Object body)) =
     update_note d now authorization note_id body"
| "notes_router d now authorization (DeleteNote note_id) = delete_note d now authorization note_id"


text \<open>The router mounted under \<open>/auth\<close>, whose routes have no dependency but the session.\<close>

datatype auth_request = Register string payload | Login payload

fun auth_router :: "db \<Rightarrow> datetime \<Rightarrow> auth_request \<Rightarrow> response \<times> db" where
  "auth_router d now (Register salt (Object body)) = register d now salt body"
| "auth_router d now (Register salt p) = (request_validation_error, d)"
| "auth_router d now (Login (Object body)) = login d now body"
| "auth_router d now (Login p) = (request_validation_error, d)"

text \<open>The requests the application routes, each served at a reading of the clock.\<close>

datatype request =
    Auth auth_request
  | Notes "token option" notes_request
  | Health

fun app :: "db \<Rightarrow> datetime \<Rightarrow> request \<Rightarrow> response \<times> db" where
  "app d now (Auth r) = auth_router d now r"
| "app d now (Notes authorization r) = notes_router d now authorization r"
| "app d now Health = (Response 200 [] (Obj [(''status'', JStr ''ok'')]), d)"

text \<open>Serving a sequence of timed requests, one after the other.\<close>

fun serve :: "db \<Rightarrow> (datetime \<times> request) list \<Rightarrow> response list \<times> db" where
  "serve d [] = ([], d)"
| "serve d ((now, r) # rs) =
     (case app d now r of
        (resp, d1) \<Rightarrow> (case serve d1 rs of (resps, d2) \<Rightarrow> (resp # resps, d2)))"

section \<open>Well-formed stores and an example store\<close>

text \<open>
  What the schema declares and the sequences guarantee: primary keys and usernames are
  unique and were drawn from the sequences, no stored title is null, and every note
  references a stored user.
\<close>

definition wf_db :: "db \<Rightarrow> bool" where
  "wf_db d \<longleftrightarrow>
     distinct (map u_id (user_rows d)) \<and>
     distinct (map u_username (user_rows d)) \<and>
     (\<forall>u \<in> set (user_rows d). u_id u < users_id_seq d) \<and>
     distinct (map n_id (note_rows d)) \<and>
     (\<forall>n \<in> set (note_rows d). n_id n < notes_id_seq d) \<and>
     (\<forall>n \<in> set (note_rows d). n_title n \<noteq> None \<and> (\<exists>u \<in> set (user_rows d). u_id u = n_user_id n))"

text \<open>A request that reads, updates or deletes the note with a given id.\<close>

fun on_note :: "int \<Rightarrow> request \<Rightarrow> bool" where
  "on_note i (Notes authorization (ReadNote j)) = (i = j)"
| "on_note i (Notes authorization (UpdateNote j p)) = (i = j)"
| "on_note i (Notes authorization (DeleteNote j)) = (i = j)"
| "on_note i r = False"

text \<open>
  Alice and Bob have registered, and Alice has created the note \<open>Shopping\<close>, as in the
  scenario of the specification.
\<close>

definition alice :: User where
  "alice = \<lparr>u_id = 1, u_username = ''alice'', u_hashed_password = Digest ''s1'' ''secret1'',
            u_created_at = 10\<rparr>"

definition bob :: User where
  "bob = \<lparr>u_id = 2, u_username = ''bob'', u_hashed_password = Digest ''s2'' ''hunter22'',
          u_created_at = 20\<rparr>"

definition shopping :: Note where
  "shopping = \<lparr>n_id = 1, n_title = Some ''Shopping'', n_body = None, n_user_id = 1,
               n_created_at = 30, n_updated_at = 30\<rparr>"

definition example_db :: db where
  "example_db = \<lparr>user_rows = [alice, bob], note_rows = [shopping], users_id_seq = 3,
                 notes_id_seq = 2, statements = []\<rparr>"

definition alice_token :: "token option" where
  "alice_token = Some (JWT ''alice'' 1800000040 SECRET_KEY)"

definition bob_token :: "token option" where
  "bob_token = Some (JWT ''bob'' 1800000040 SECRET_KEY)"

text \<open>Bodies of registration and login requests.\<close>

definition credentials :: "string \<Rightarrow> string \<Rightarrow> json_dict" where
  "credentials username password = [''username'' \<mapsto> JStr username, ''password'' \<mapsto> JStr password]"

text \<open>The store in which no note with a given id exists at all.\<close>

definition without_note :: "int \<Rightarrow> db \<Rightarrow> db" where
  "without_note i d = d\<lparr>note_rows := filter (\<lambda>m. n_id m \<noteq> i) (note_rows d)\<rparr>"

text \<open>An update request whose JSON object has no key at all.\<close>

definition empty_update :: json_dict where
  "empty_update = Map.empty"

text \<open>The value a field of the note takes from a field of the update, when it was set.\<close>

definition assigned :: "string option fld \<Rightarrow> string option \<Rightarrow> string option" where
  "assigned f old = (case f of Unset \<Rightarrow> old | IsSet v \<Rightarrow> v)"

text \<open>Bodies of update requests on the example store.\<close>

definition title_update :: json_dict where
  "title_update = [''title'' \<mapsto> JStr ''Groceries'']"

definition milk_update :: json_dict where
  "milk_update = [''body'' \<mapsto> JStr ''milk'']"



text \<open>
  A creation request without a body field, one whose title has 256 characters, and the
  requests that follow the deletion of note 1: Carol registers, Bob looks for the note,
  Alice creates another note and lists hers, then tries to update and to delete the
  deleted one.
\<close>

definition todo_note :: json_dict where
  "todo_note = [''title'' \<mapsto> JStr ''Todo'']"


definition later_requests :: "(datetime \<times> request) list" where
  "later_requests =
     [(41, Auth (Register ''s3'' (Object (credentials ''carol'' ''pw-carol'')))),
      (42, Notes bob_token (ReadNote 1)),
      (43, Notes alice_token (CreateNote 43 43 (Object todo_note))),
      (44, Notes alice_token (ReadNotes 0 100)),
      (45, Notes alice_token (UpdateNote 1 (Object title_update))),
      (46, Notes alice_token (DeleteNote 1))]"

text \<open>The scenario of the specification, served from the empty store.\<close>

definition scenario :: "(datetime \<times> request) list" where
  "scenario =
     [(10, Auth (Register ''s1'' (Object (credentials ''alice'' ''secret1'')))),
      (20, Auth (Login (Object (credentials ''alice'' ''secret1'')))),
      (30, Notes alice_token (CreateNote 30 31 (Object [''title'' \<mapsto> JStr ''Shopping'']))),
      (40, Notes alice_token (ReadNotes 0 100)),
      (50, Notes alice_token (UpdateNote 1 (Object milk_update))),
      (60, Notes alice_token (DeleteNote 1)),
      (70, Notes alice_token (ReadNote 1))]"

section \<open>Basic facts\<close>

lemma issue_simps [simp]:
  "user_rows (issue s d) = user_rows d"
  "note_rows (issue s d) = note_rows d"
  "users_id_seq (issue s d) = users_id_seq d"
  "notes_id_seq (issue s d) = notes_id_seq d"
  "statements (issue s d) = statements d @ [s]"
  by (simp_all add: issue_def)


section \<open>Authentication and the body of a request\<close>




lemma find_SomeD: "find P xs = Some x \<Longrightarrow> x \<in> set xs \<and> P x"
  by (induction xs) (auto split: if_splits)

lemma validate_UserLogin_credentials:
  "validate_UserLogin (credentials username password) =
     Some \<lparr>ul_username = username, ul_password = password\<rparr>"
  by (simp add: validate_UserLogin_def validate_str_def credentials_def)

lemma validate_UserCreate_credentials:
  "3 \<le> length username \<Longrightarrow> length username \<le> 50 \<Longrightarrow>
   6 \<le> length password \<Longrightarrow> length password \<le> 72 \<Longrightarrow>
   validate_UserCreate (credentials username password) =
     Some \<lparr>uc_username = username, uc_password = password\<rparr>"
  by (simp add: validate_UserCreate_def validate_str_len_def credentials_def)

lemma example_lookup:
  "fst (crud_user_get_user_by_username example_db ''alice'') = Some alice"
  "fst (crud_user_get_user_by_username example_db ''bob'') = Some bob"
  "fst (crud_user_get_user_by_username example_db ''carol'') = None"
  "fst (crud_user_get_user_by_username example_db ''Carol'') = None"
  by (simp_all add: crud_user_get_user_by_username_def example_db_def alice_def bob_def)

section \<open>Login\<close>

text \<open>
  Claim C3. Login with the credentials of a stored user whose digest verifies returns 200
  with a bearer token for that user. Login with a password that does not verify and login
  with a username that names no user both return 401, and the two failing runs are
  identical: the same status, headers and generic detail, and the same statements issued.
\<close>

theorem login_token_or_generic_401:
  assumes good: "validate_UserLogin good = Some \<lparr>ul_username = username, ul_password = password\<rparr>"
    and known: "fst (crud_user_get_user_by_username d username) = Some u"
    and ok: "verify_password password (u_hashed_password u)"
    and wrong: "validate_UserLogin wrong = Some \<lparr>ul_username = username, ul_password = wrong_password\<rparr>"
    and bad: "\<not> verify_password wrong_password (u_hashed_password u)"
    and unknown: "validate_UserLogin unknown = Some \<lparr>ul_username = other, ul_password = any_password\<rparr>"
    and absent: "fst (crud_user_get_user_by_username d other) = None"
  shows "fst (login d now good) =
            Response 200 []
              (Obj [(''access_token'',
                     JTok (create_access_token now (u_username u)
                             (timedelta_minutes ACCESS_TOKEN_EXPIRE_MINUTES))),
                    (''token_type'', JStr ''bearer'')]) \<and>
         fst (login d now1 wrong) =
            http_exception 401 ''Incorrect username or password'' [(''WWW-Authenticate'', ''Bearer'')] \<and>
         status_code (fst (login d now1 wrong)) = 401 \<and>
         status_code (fst (login d now2 unknown)) = 401 \<and>
         login d now2 unknown = login d now1 wrong"
  using assms
  by (simp add: login_def crud_user_authenticate_user_def crud_user_get_user_by_username_def
      Token_def http_exception_def split: prod.splits option.splits)

theorem login_token_or_generic_401_witness:
  "fst (login example_db 50 (credentials ''alice'' ''secret1'')) =
     Response 200 []
       (Obj [(''access_token'', JTok (JWT ''alice'' 1800000050 SECRET_KEY)),
             (''token_type'', JStr ''bearer'')]) \<and>
   status_code (fst (login example_db 60 (credentials ''alice'' ''Secret1''))) = 401 \<and>
   login example_db 70 (credentials ''carol'' ''secret1'') =
   login example_db 60 (credentials ''alice'' ''Secret1'')"
proof -
  have ok: "verify_password ''secret1'' (u_hashed_password alice)"
    by (simp add: verify_password_def alice_def)
  have bad: "\<not> verify_password ''Secret1'' (u_hashed_password alice)"
    by (simp add: verify_password_def alice_def)
  have tok: "create_access_token 50 (u_username alice) (timedelta_minutes ACCESS_TOKEN_EXPIRE_MINUTES) =
      JWT ''alice'' 1800000050 SECRET_KEY"
    by (simp add: create_access_token_def timedelta_minutes_def ACCESS_TOKEN_EXPIRE_MINUTES_def
        alice_def)
  show ?thesis
    using login_token_or_generic_401 [where now = 50 and ?now1.0 = 60 and ?now2.0 = 70
        and any_password = "''secret1''",
        OF validate_UserLogin_credentials example_lookup(1) ok
        validate_UserLogin_credentials bad validate_UserLogin_credentials example_lookup(3)]
    by (simp add: tok http_exception_def)
qed

section \<open>Registration\<close>

lemma register_cases:
  "register d now salt body =
     (case validate_UserCreate body of
        None \<Rightarrow> (request_validation_error, d)
      | Some user_in \<Rightarrow>
          if \<exists>u \<in> set (user_rows d). u_username u = uc_username user_in
          then (http_exception 400 ''Username already registered'' [], issue (SELECT UsersTable) d)
          else (Response 201 []
                  (Obj [(''id'', JInt (users_id_seq d)), (''username'', JStr (uc_username user_in)),
                        (''created_at'', JTime now)]),
                issue (SELECT UsersTable) (issue (INSERT UsersTable)
                  (issue (SELECT UsersTable) d\<lparr>users_id_seq := users_id_seq d + 1\<rparr>)
                  \<lparr>user_rows := user_rows d @
                     [\<lparr>u_id = users_id_seq d, u_username = uc_username user_in,
                       u_hashed_password = get_password_hash salt (uc_password user_in),
                       u_created_at = now\<rparr>]\<rparr>)))"
  by (auto simp: register_def crud_user_get_user_by_username_def crud_user_create_user_def
      UserRead_def Let_def find_None_iff split: option.splits dest: find_SomeD)

text \<open>
  Claim C6. When a username that no stored user has is registered, the registration
  answers 201 and adds one user row. A second registration of exactly the same username
  (with any password) answers 400 with a detail that contains \<open>already registered\<close> and
  adds no row. The match is exact: a username that differs from it in any character, and
  that no stored user has, is still accepted.
\<close>

theorem register_same_username_twice:
  assumes v1: "validate_UserCreate body1 = Some user1"
    and fresh1: "fst (crud_user_get_user_by_username d (uc_username user1)) = None"
    and first: "register d now1 salt1 body1 = (r1, d1)"
    and v2: "validate_UserCreate body2 = Some user2"
    and same: "uc_username user2 = uc_username user1"
    and second: "register d1 now2 salt2 body2 = (r2, d2)"
    and v3: "validate_UserCreate body3 = Some user3"
    and differs: "uc_username user3 \<noteq> uc_username user1"
    and fresh3: "fst (crud_user_get_user_by_username d (uc_username user3)) = None"
    and third: "register d1 now3 salt3 body3 = (r3, d3)"
  shows "status_code r1 = 201 \<and>
         length (user_rows d1) = Suc (length (user_rows d)) \<and>
         status_code r2 = 400 \<and>
         (\<exists>before after.
            content r2 = Obj [(''detail'', JStr (before @ ''already registered'' @ after))]) \<and>
         user_rows d2 = user_rows d1 \<and>
         status_code r3 = 201"
proof -
  from fresh1 have n1: "\<not> (\<exists>u \<in> set (user_rows d). u_username u = uc_username user1)"
    by (simp add: crud_user_get_user_by_username_def find_None_iff)
  from fresh3 have n3: "\<not> (\<exists>u \<in> set (user_rows d). u_username u = uc_username user3)"
    by (simp add: crud_user_get_user_by_username_def find_None_iff)
  from first v1 n1 have r1: "status_code r1 = 201"
    and d1: "user_rows d1 = user_rows d @
        [\<lparr>u_id = users_id_seq d, u_username = uc_username user1,
          u_hashed_password = get_password_hash salt1 (uc_password user1), u_created_at = now1\<rparr>]"
    by (auto simp: register_cases)
  from second v2 same d1 have r2: "r2 = http_exception 400 ''Username already registered'' []"
    and d2: "user_rows d2 = user_rows d1"
    by (auto simp: register_cases)
  have "''Username already registered'' = ''Username '' @ ''already registered'' @ []"
    by simp
  with r2 have msg: "\<exists>before after.
      content r2 = Obj [(''detail'', JStr (before @ ''already registered'' @ after))]"
    unfolding http_exception_def by (metis response.sel(3))
  from third v3 n3 differs d1 have r3: "status_code r3 = 201"
    by (auto simp: register_cases)
  from r1 d1 r2 d2 msg r3 show ?thesis
    by (simp add: http_exception_def)
qed

theorem register_same_username_twice_witness:
  "status_code (fst (register example_db 100 ''s3'' (credentials ''carol'' ''pw-carol''))) = 201 \<and>
   status_code (fst (register (snd (register example_db 100 ''s3'' (credentials ''carol'' ''pw-carol'')))
      110 ''s4'' (credentials ''carol'' ''another-pw''))) = 400 \<and>
   user_rows (snd (register (snd (register example_db 100 ''s3'' (credentials ''carol'' ''pw-carol'')))
      110 ''s4'' (credentials ''carol'' ''another-pw''))) =
   user_rows (snd (register example_db 100 ''s3'' (credentials ''carol'' ''pw-carol''))) \<and>
   status_code (fst (register (snd (register example_db 100 ''s3'' (credentials ''carol'' ''pw-carol'')))
      120 ''s5'' (credentials ''Carol'' ''pw-carol''))) = 201"
proof -
  have v1: "validate_UserCreate (credentials ''carol'' ''pw-carol'') =
      Some \<lparr>uc_username = ''carol'', uc_password = ''pw-carol''\<rparr>"
    by (simp add: validate_UserCreate_credentials)
  have v2: "validate_UserCreate (credentials ''carol'' ''another-pw'') =
      Some \<lparr>uc_username = ''carol'', uc_password = ''another-pw''\<rparr>"
    by (simp add: validate_UserCreate_credentials)
  have v3: "validate_UserCreate (credentials ''Carol'' ''pw-carol'') =
      Some \<lparr>uc_username = ''Carol'', uc_password = ''pw-carol''\<rparr>"
    by (simp add: validate_UserCreate_credentials)
  show ?thesis
    using register_same_username_twice [where d = example_db and ?now1.0 = 100
        and ?salt1.0 = "''s3''" and ?now2.0 = 110 and ?salt2.0 = "''s4''" and ?now3.0 = 120
        and ?salt3.0 = "''s5''", OF v1 _ surjective_pairing v2 _ surjective_pairing v3 _ _
        surjective_pairing]
    by (simp add: example_lookup)
qed

text \<open>
  Claim C9. A registration answered 201 carries exactly the fields \<open>id\<close>, \<open>username\<close> and
  \<open>created_at\<close>, whose values are the next value of the sequence, the supplied username
  and the clock's reading: neither the password nor its digest (nor the salt) enters the
  response, so registering the same username with any other password yields the same
  response.
\<close>

theorem register_response_is_public:
  assumes "register d now salt body = (r, d1)" and "status_code r = 201"
  shows "\<exists>user_in. validate_UserCreate body = Some user_in \<and>
           r = Response 201 []
                 (Obj [(''id'', JInt (users_id_seq d)), (''username'', JStr (uc_username user_in)),
                       (''created_at'', JTime now)]) \<and>
           (\<forall>salt2 body2 user2.
              validate_UserCreate body2 = Some user2 \<and> uc_username user2 = uc_username user_in
              \<longrightarrow> fst (register d now salt2 body2) = r)"
  using assms
  by (auto simp: register_cases http_exception_def request_validation_error_def
      split: option.splits if_splits)

theorem register_response_is_public_witness:
  "fst (register example_db 100 ''s3'' (credentials ''carol'' ''pw-carol'')) =
     Response 201 [] (Obj [(''id'', JInt 3), (''username'', JStr ''carol''), (''created_at'', JTime 100)]) \<and>
   fst (register example_db 100 ''s9'' (credentials ''carol'' ''another-pw'')) =
   fst (register example_db 100 ''s3'' (credentials ''carol'' ''pw-carol''))"
proof -
  have v1: "validate_UserCreate (credentials ''carol'' ''pw-carol'') =
      Some \<lparr>uc_username = ''carol'', uc_password = ''pw-carol''\<rparr>"
    by (simp add: validate_UserCreate_credentials)
  have v2: "validate_UserCreate (credentials ''carol'' ''another-pw'') =
      Some \<lparr>uc_username = ''carol'', uc_password = ''another-pw''\<rparr>"
    by (simp add: validate_UserCreate_credentials)
  have s: "status_code (fst (register example_db 100 ''s3'' (credentials ''carol'' ''pw-carol''))) = 201"
    by (simp add: register_cases v1 example_db_def alice_def bob_def)
  from register_response_is_public [OF surjective_pairing s]
  show ?thesis
    using v1 v2 by (auto simp: example_db_def)
qed

lemma get_current_user_Inr:
  assumes "fst (get_current_user d now authorization) = Inr u"
  shows "get_current_user d now authorization = (Inr u, issue (SELECT UsersTable) d)"
    and "u \<in> set (user_rows d)"
  using assms
  by (auto simp: get_current_user_def crud_user_get_user_by_username_def
      split: option.splits dest: find_SomeD)

lemma get_current_user_rows:
  "user_rows d' = user_rows d \<Longrightarrow>
   fst (get_current_user d' now authorization) = fst (get_current_user d now authorization)"
  by (simp add: get_current_user_def crud_user_get_user_by_username_def split: option.splits)

lemma distinct_map_eq:
  "distinct (map f xs) \<Longrightarrow> x \<in> set xs \<Longrightarrow> y \<in> set xs \<Longrightarrow> f x = f y \<Longrightarrow> x = y"
  by (meson distinct_map inj_onD)

lemma NoteRead_list_titles:
  "\<forall>n \<in> set ns. n_title n \<noteq> None \<Longrightarrow>
   \<exists>js. NoteRead_list ns = Some js \<and> map (\<lambda>j. map_of j ''id'') js = map (\<lambda>n. Some (JInt (n_id n))) ns"
  by (induction ns) (auto simp: NoteRead_def)

lemma foreign_note_not_found:
  assumes wf: "wf_db d" and a: "a \<in> set (user_rows d)" and b: "b \<in> set (user_rows d)"
    and ab: "a \<noteq> b" and n: "n \<in> set (note_rows d)" and owner: "n_user_id n = u_id a"
  shows "find (\<lambda>m. n_id m = n_id n \<and> n_user_id m = u_id b) (note_rows d) = None"
proof -
  from wf a b ab have ids: "u_id a \<noteq> u_id b"
    unfolding wf_db_def using distinct_map_eq [of u_id "user_rows d" a b] by blast
  have "\<And>m. m \<in> set (note_rows d) \<Longrightarrow> n_id m = n_id n \<Longrightarrow> m = n"
    using wf n unfolding wf_db_def using distinct_map_eq [of n_id "note_rows d"] by blast
  with ids owner have "\<And>m. m \<in> set (note_rows d) \<Longrightarrow>
      \<not> (n_id m = n_id n \<and> n_user_id m = u_id b)"
    by metis
  then show ?thesis
    by (simp add: find_None_iff)
qed

section \<open>Ownership scoping\<close>

text \<open>
  Claim C1. Let \<open>a\<close> and \<open>b\<close> be two different users of a well-formed store and \<open>n\<close> a note
  owned by \<open>a\<close>, and let a request authenticate as \<open>b\<close>. Then \<open>b\<close>'s list is answered 200
  and no element of it carries the id of \<open>n\<close>; \<open>b\<close>'s get, update (with a valid body) and
  delete on the id of \<open>n\<close> are answered with the 404 of \<open>note_not_found\<close>; each of the three
  answers is the answer the same request gets from the store in which no note with that id
  exists; and the note rows are left as they were.
\<close>

theorem cross_tenant_isolation:
  assumes wf: "wf_db d"
    and a: "a \<in> set (user_rows d)"
    and b: "fst (get_current_user d now authorization) = Inr b"
    and ab: "a \<noteq> b"
    and n: "n \<in> set (note_rows d)"
    and owner: "n_user_id n = u_id a"
  shows "(\<exists>js. fst (read_notes d now authorization skip limit) = Response 200 [] (Arr js) \<and>
               (\<forall>j \<in> set js. map_of j ''id'' \<noteq> Some (JInt (n_id n)))) \<and>
         fst (read_note d now authorization (n_id n)) = note_not_found (n_id n) \<and>
         (validate_NoteUpdate body \<noteq> None \<longrightarrow>
            fst (update_note d now authorization (n_id n) body) = note_not_found (n_id n)) \<and>
         fst (delete_note d now authorization (n_id n)) = note_not_found (n_id n) \<and>
         status_code (note_not_found (n_id n)) = 404 \<and>
         fst (read_note (without_note (n_id n) d) now authorization (n_id n)) =
           fst (read_note d now authorization (n_id n)) \<and>
         fst (update_note (without_note (n_id n) d) now authorization (n_id n) body) =
           fst (update_note d now authorization (n_id n) body) \<and>
         fst (delete_note (without_note (n_id n) d) now authorization (n_id n)) =
           fst (delete_note d now authorization (n_id n)) \<and>
         note_rows (snd (update_note d now authorization (n_id n) body)) = note_rows d \<and>
         note_rows (snd (delete_note d now authorization (n_id n))) = note_rows d"
proof -
  note g = get_current_user_Inr [OF b]
  have "user_rows (without_note (n_id n) d) = user_rows d"
    by (simp add: without_note_def)
  from get_current_user_rows [OF this, of now authorization] b
  have b': "fst (get_current_user (without_note (n_id n) d) now authorization) = Inr b"
    by simp
  note g' = get_current_user_Inr(1) [OF b']
  have none: "find (\<lambda>m. n_id m = n_id n \<and> n_user_id m = u_id b) (note_rows d) = None"
    using foreign_note_not_found [OF wf a g(2) ab n owner] .
  have none': "find (\<lambda>m. n_id m = n_id n \<and> n_user_id m = u_id b)
      (note_rows (without_note (n_id n) d)) = None"
    by (auto simp: find_None_iff without_note_def)
  let ?own = "take limit (drop skip (filter (\<lambda>m. n_user_id m = u_id b) (note_rows d)))"
  have sub: "set ?own \<subseteq> {m \<in> set (note_rows d). n_user_id m = u_id b}"
    using set_take_subset [of limit "drop skip (filter (\<lambda>m. n_user_id m = u_id b) (note_rows d))"]
      set_drop_subset [of skip "filter (\<lambda>m. n_user_id m = u_id b) (note_rows d)"]
    by auto
  with wf have "\<forall>m \<in> set ?own. n_title m \<noteq> None"
    unfolding wf_db_def by blast
  from NoteRead_list_titles [OF this] obtain js where
    js: "NoteRead_list ?own = Some js"
    and ids: "map (\<lambda>j. map_of j ''id'') js = map (\<lambda>m. Some (JInt (n_id m))) ?own"
    by blast
  have "n \<notin> set ?own"
    using sub none n by (auto simp: find_None_iff)
  have "n_id n \<notin> n_id ` set ?own"
  proof
    assume "n_id n \<in> n_id ` set ?own"
    then obtain m where m: "m \<in> set ?own" "n_id m = n_id n" by auto
    with sub have "m \<in> set (note_rows d)" "n_user_id m = u_id b" by auto
    with m none show False by (auto simp: find_None_iff)
  qed
  have "\<forall>j \<in> set js. map_of j ''id'' \<noteq> Some (JInt (n_id n))"
  proof
    fix j assume "j \<in> set js"
    then have "map_of j ''id'' \<in> set (map (\<lambda>j. map_of j ''id'') js)" by simp
    with ids have "map_of j ''id'' \<in> (\<lambda>m. Some (JInt (n_id m))) ` set ?own" by simp
    with \<open>n_id n \<notin> n_id ` set ?own\<close> show "map_of j ''id'' \<noteq> Some (JInt (n_id n))" by auto
  qed
  with js have l: "\<exists>js. fst (read_notes d now authorization skip limit) = Response 200 [] (Arr js) \<and>
               (\<forall>j \<in> set js. map_of j ''id'' \<noteq> Some (JInt (n_id n)))"
    by (simp add: read_notes_def g(1) crud_note_get_notes_def)
  have r: "fst (read_note d now authorization (n_id n)) = note_not_found (n_id n)"
    "fst (read_note (without_note (n_id n) d) now authorization (n_id n)) = note_not_found (n_id n)"
    by (simp_all add: read_note_def g(1) g' crud_note_get_note_def none none')
  have u: "update_note d now authorization (n_id n) body =
      (case validate_NoteUpdate body of None \<Rightarrow> (request_validation_error, issue (SELECT UsersTable) d)
       | Some note_in \<Rightarrow> (note_not_found (n_id n), issue (SELECT NotesTable) (issue (SELECT UsersTable) d)))"
    by (simp add: update_note_def g(1) crud_note_get_note_def none split: option.splits)
  have u': "fst (update_note (without_note (n_id n) d) now authorization (n_id n) body) =
      (case validate_NoteUpdate body of None \<Rightarrow> request_validation_error
       | Some note_in \<Rightarrow> note_not_found (n_id n))"
    by (simp add: update_note_def g' crud_note_get_note_def none' split: option.splits)
  have dl: "delete_note d now authorization (n_id n) =
      (note_not_found (n_id n), issue (SELECT NotesTable) (issue (SELECT UsersTable) d))"
    "fst (delete_note (without_note (n_id n) d) now authorization (n_id n)) = note_not_found (n_id n)"
    by (simp_all add: delete_note_def g(1) g' crud_note_get_note_def none none')
  have s: "status_code (note_not_found (n_id n)) = 404"
    by (simp add: note_not_found_def http_exception_def)
  from l r u u' dl s show ?thesis
    by (auto split: option.splits)
qed

lemma example_wf: "wf_db example_db"
  by (simp add: wf_db_def example_db_def alice_def bob_def shopping_def)

lemma example_auth:
  "fst (get_current_user example_db 40 alice_token) = Inr alice"
  "fst (get_current_user example_db 40 bob_token) = Inr bob"
  by (simp_all add: get_current_user_def verify_token_def alice_token_def bob_token_def
      crud_user_get_user_by_username_def example_db_def alice_def bob_def)

theorem cross_tenant_isolation_witness:
  "fst (read_notes example_db 40 bob_token 0 100) = Response 200 [] (Arr []) \<and>
   fst (read_note example_db 40 bob_token 1) = note_not_found 1 \<and>
   fst (update_note example_db 40 bob_token 1 [''title'' \<mapsto> JStr ''mine'']) = note_not_found 1 \<and>
   fst (delete_note example_db 40 bob_token 1) = note_not_found 1 \<and>
   fst (read_note (without_note 1 example_db) 40 bob_token 1) = fst (read_note example_db 40 bob_token 1) \<and>
   note_rows (snd (delete_note example_db 40 bob_token 1)) = [shopping]"
proof -
  have a: "alice \<in> set (user_rows example_db)"
    and n: "shopping \<in> set (note_rows example_db)"
    by (simp_all add: example_db_def)
  have ab: "alice \<noteq> bob"
    by (simp add: alice_def bob_def)
  have owner: "n_user_id shopping = u_id alice"
    by (simp add: shopping_def alice_def)
  have v: "validate_NoteUpdate [''title'' \<mapsto> JStr ''mine''] \<noteq> None"
    by (simp add: validate_NoteUpdate_def validate_optional_str_def)
  have i: "n_id shopping = 1"
    by (simp add: shopping_def)
  have l: "fst (read_notes example_db 40 bob_token 0 100) = Response 200 [] (Arr [])"
    unfolding read_notes_def get_current_user_Inr(1) [OF example_auth(2)]
    by (simp add: crud_note_get_notes_def example_db_def shopping_def bob_def)
  from cross_tenant_isolation [OF example_wf a example_auth(2) ab n owner,
      of 0 100 "[''title'' \<mapsto> JStr ''mine'']"] v i l
  show ?thesis
    by (simp add: example_db_def)
qed

section \<open>Updating a note\<close>

lemma setattr_items_dump:
  "setattr_items n (model_dump_exclude_unset note_in) =
     n\<lparr>n_title := assigned (nu_title note_in) (n_title n),
       n_body := assigned (nu_body note_in) (n_body n)\<rparr>"
  by (cases "nu_title note_in"; cases "nu_body note_in")
    (simp_all add: model_dump_exclude_unset_def setattr_def assigned_def)

lemma find_unique_id:
  assumes "distinct (map n_id rows)" and "find P rows = Some n"
  shows "find (\<lambda>r. n_id r = n_id n) rows = Some n"
  using assms
proof (induction rows)
  case Nil
  then show ?case by simp
next
  case (Cons r rows)
  show ?case
  proof (cases "P r")
    case True
    with Cons.prems show ?thesis by simp
  next
    case False
    with Cons.prems have f: "find P rows = Some n" by simp
    then have "n \<in> set rows" by (simp add: find_SomeD)
    with Cons.prems(1) have "n_id r \<noteq> n_id n" by force
    with Cons f show ?thesis by simp
  qed
qed

lemma find_replace:
  assumes "distinct (map n_id rows)" and "find P rows = Some n" and "P n'" and "n_id n' = n_id n"
  shows "find P (map (\<lambda>r. if n_id r = n_id n then n' else r) rows) = Some n'"
  using assms
proof (induction rows)
  case Nil
  then show ?case by simp
next
  case (Cons r rows)
  show ?case
  proof (cases "P r")
    case True
    with Cons.prems show ?thesis by simp
  next
    case False
    with Cons.prems have f: "find P rows = Some n" by simp
    then have "n \<in> set rows" by (simp add: find_SomeD)
    with Cons.prems(1) have "n_id r \<noteq> n_id n" by force
    with Cons f False show ?thesis by simp
  qed
qed

lemma map_row_cong:
  assumes "distinct (map n_id rows)" and "n \<in> set rows"
  shows "map (\<lambda>r. if n_id r = n_id n then F r else r) rows =
         map (\<lambda>r. if n_id r = n_id n then F n else r) rows"
proof (rule map_cong [OF refl])
  fix r assume "r \<in> set rows"
  with assms show "(if n_id r = n_id n then F r else r) = (if n_id r = n_id n then F n else r)"
    using distinct_map_eq [of n_id rows r n] by auto
qed


lemma find_member: "x \<in> set xs \<Longrightarrow> find (\<lambda>r. r = x) xs = Some x"
  by (induction xs) auto

lemma flush_update_note_existing:
  assumes dist: "distinct (map n_id (note_rows d))" and nin: "n \<in> set (note_rows d)"
    and title: "n_title n \<noteq> None"
  shows "flush_update_note d now n (n\<lparr>n_title := t, n_body := b\<rparr>) =
     (if t = n_title n \<and> b = n_body n then Inr d
      else if t = None then Inl IntegrityError
      else Inr (issue (UPDATE NotesTable) d
             \<lparr>note_rows := map (\<lambda>r. if n_id r = n_id n
                                     then n\<lparr>n_title := t, n_body := b, n_updated_at := now\<rparr>
                                     else r) (note_rows d)\<rparr>))"
proof -
  let ?F = "\<lambda>r. r\<lparr>n_title := (if t = n_title n then n_title r else t),
                    n_body := (if b = n_body n then n_body r else b),
                    n_updated_at := now\<rparr>"
  have Fn: "?F n = n\<lparr>n_title := t, n_body := b, n_updated_at := now\<rparr>"
    by simp
  have m: "map (\<lambda>r. if n_id r = n_id n then ?F r else r) (note_rows d) =
           map (\<lambda>r. if n_id r = n_id n then n\<lparr>n_title := t, n_body := b, n_updated_at := now\<rparr> else r)
             (note_rows d)"
    using map_row_cong [OF dist nin, of ?F] by (simp only: Fn)
  have ex: "\<exists>r \<in> set (note_rows d). n_id r = n_id n"
    using nin by blast
  show ?thesis
  proof (cases "t = n_title n \<and> b = n_body n")
    case True
    then show ?thesis by (simp add: flush_update_note_def)
  next
    case False
    show ?thesis
    proof (cases "t = None")
      case True
      with False ex title show ?thesis by (auto simp: flush_update_note_def Let_def)
    next
      case notNone: False
      have "flush_update_note d now n (n\<lparr>n_title := t, n_body := b\<rparr>) =
          Inr (issue (UPDATE NotesTable) d
             \<lparr>note_rows := map (\<lambda>r. if n_id r = n_id n then ?F r else r) (note_rows d)\<rparr>)"
        using False notNone ex by (auto simp: flush_update_note_def Let_def)
      with False notNone show ?thesis by (simp only: m if_False)
    qed
  qed
qed

lemma crud_note_update_note_existing:
  assumes dist: "distinct (map n_id (note_rows d))" and nin: "n \<in> set (note_rows d)"
    and title: "n_title n \<noteq> None"
    and t: "t = assigned (nu_title note_in) (n_title n)"
    and b: "b = assigned (nu_body note_in) (n_body n)"
  shows "crud_note_update_note d now n note_in =
     (if t = n_title n \<and> b = n_body n then (Inr n, issue (SELECT NotesTable) d)
      else if t = None then (Inl IntegrityError, issue (UPDATE NotesTable) d)
      else (Inr (n\<lparr>n_title := t, n_body := b, n_updated_at := now\<rparr>),
            issue (SELECT NotesTable) (issue (UPDATE NotesTable) d
             \<lparr>note_rows := map (\<lambda>r. if n_id r = n_id n
                                     then n\<lparr>n_title := t, n_body := b, n_updated_at := now\<rparr>
                                     else r) (note_rows d)\<rparr>)))"
proof -
  have s: "setattr_items n (model_dump_exclude_unset note_in) = n\<lparr>n_title := t, n_body := b\<rparr>"
    by (simp add: setattr_items_dump t b)
  have byid: "find (\<lambda>r. n_id r = n_id n) (note_rows d) = Some n"
  proof -
    from find_unique_id [OF dist find_member [OF nin]] show ?thesis .
  qed
  have byid1: "find (\<lambda>r. n_id r = n_id n)
      (map (\<lambda>r. if n_id r = n_id n then n\<lparr>n_title := t, n_body := b, n_updated_at := now\<rparr> else r)
         (note_rows d)) = Some (n\<lparr>n_title := t, n_body := b, n_updated_at := now\<rparr>)"
    using find_replace [OF dist byid, of "n\<lparr>n_title := t, n_body := b, n_updated_at := now\<rparr>"]
    by simp
  show ?thesis
  proof (cases "t = n_title n \<and> b = n_body n")
    case True
    then have "n\<lparr>n_title := t, n_body := b\<rparr> = n" by simp
    with True show ?thesis
      unfolding crud_note_update_note_def Let_def s flush_update_note_existing [OF dist nin title]
      by (simp add: refresh_note_def byid)
  next
    case False
    show ?thesis
    proof (cases "t = None")
      case True
      with False show ?thesis
        unfolding crud_note_update_note_def Let_def s flush_update_note_existing [OF dist nin title]
        by auto
    next
      case notNone: False
      with False show ?thesis
        unfolding crud_note_update_note_def Let_def s flush_update_note_existing [OF dist nin title]
        by (auto simp: refresh_note_def byid1)
    qed
  qed
qed


lemma crud_note_update_note_unchanged:
  assumes "distinct (map n_id (note_rows d))" and "n \<in> set (note_rows d)" and "n_title n \<noteq> None"
    and "assigned (nu_title note_in) (n_title n) = n_title n"
    and "assigned (nu_body note_in) (n_body n) = n_body n"
  shows "crud_note_update_note d now n note_in = (Inr n, issue (SELECT NotesTable) d)"
  using crud_note_update_note_existing [OF assms(1-3) refl refl, of now note_in] assms(4,5)
  by simp

lemma crud_note_update_note_null_title:
  assumes "distinct (map n_id (note_rows d))" and "n \<in> set (note_rows d)" and "n_title n \<noteq> None"
    and "assigned (nu_title note_in) (n_title n) = None"
  shows "crud_note_update_note d now n note_in = (Inl IntegrityError, issue (UPDATE NotesTable) d)"
proof -
  from assms(3,4) have "\<not> (assigned (nu_title note_in) (n_title n) = n_title n \<and>
      assigned (nu_body note_in) (n_body n) = n_body n)"
    by auto
  with crud_note_update_note_existing [OF assms(1-3) refl refl, of now note_in] assms(4)
  show ?thesis by (simp only: if_False refl if_True)
qed

lemma crud_note_update_note_changed:
  assumes "distinct (map n_id (note_rows d))" and "n \<in> set (note_rows d)" and "n_title n \<noteq> None"
    and "assigned (nu_title note_in) (n_title n) \<noteq> None"
    and "assigned (nu_title note_in) (n_title n) \<noteq> n_title n \<or>
         assigned (nu_body note_in) (n_body n) \<noteq> n_body n"
    and "n1 = n\<lparr>n_title := assigned (nu_title note_in) (n_title n),
                 n_body := assigned (nu_body note_in) (n_body n), n_updated_at := now\<rparr>"
  shows "crud_note_update_note d now n note_in =
     (Inr n1, issue (SELECT NotesTable) (issue (UPDATE NotesTable) d
        \<lparr>note_rows := map (\<lambda>r. if n_id r = n_id n then n1 else r) (note_rows d)\<rparr>))"
proof -
  from assms(5) have "\<not> (assigned (nu_title note_in) (n_title n) = n_title n \<and>
      assigned (nu_body note_in) (n_body n) = n_body n)"
    by auto
  with crud_note_update_note_existing [OF assms(1-3) refl refl, of now note_in] assms(4)
  show ?thesis by (simp only: if_False assms(6))
qed

lemma update_note_existing:
  assumes auth: "fst (get_current_user d now authorization) = Inr owner"
    and existing: "fst (crud_note_get_note d i (u_id owner)) = Some n"
    and valid: "validate_NoteUpdate body = Some note_in"
  shows "update_note d now authorization i body =
      (case crud_note_update_note (issue (SELECT NotesTable) (issue (SELECT UsersTable) d)) now n note_in of
         (Inl e, d3) \<Rightarrow> (internal_server_error, d3)
       | (Inr n1, d3) \<Rightarrow> (note_response 200 n1, d3))"
proof -
  note g = get_current_user_Inr(1) [OF auth]
  from existing have f: "find (\<lambda>m. n_id m = i \<and> n_user_id m = u_id owner) (note_rows d) = Some n"
    by (simp add: crud_note_get_note_def)
  show ?thesis
    unfolding update_note_def g by (simp add: valid crud_note_get_note_def f)
qed

lemma note_response_200:
  "n_title m \<noteq> None \<Longrightarrow> status_code (note_response 200 m) = 200"
  by (auto simp: note_response_def NoteRead_def)

lemma filter_other_rows:
  "n_id n1 = i \<Longrightarrow>
   filter (\<lambda>m. n_id m \<noteq> i) (map (\<lambda>r. if n_id r = i then n1 else r) rows) =
   filter (\<lambda>m. n_id m \<noteq> i) rows"
  by (induction rows) auto

text \<open>The stored note of the caller after an update request, whatever its body.\<close>

lemma update_note_stored:
  assumes wf: "wf_db d"
    and auth: "fst (get_current_user d now authorization) = Inr owner"
    and existing: "fst (crud_note_get_note d i (u_id owner)) = Some n"
    and result: "update_note d now authorization i body = (r, d1)"
  shows "\<exists>n1. fst (crud_note_get_note d1 i (u_id owner)) = Some n1 \<and>
           (n1 = n \<or>
            (\<exists>note_in. validate_NoteUpdate body = Some note_in \<and>
               assigned (nu_title note_in) (n_title n) \<noteq> None \<and>
               (assigned (nu_title note_in) (n_title n) \<noteq> n_title n \<or>
                assigned (nu_body note_in) (n_body n) \<noteq> n_body n) \<and>
               status_code r = 200 \<and>
               n1 = n\<lparr>n_title := assigned (nu_title note_in) (n_title n),
                      n_body := assigned (nu_body note_in) (n_body n),
                      n_updated_at := now\<rparr>)) \<and>
           (status_code r = 200 \<longrightarrow>
              r = note_response 200 n1 \<and>
              (\<exists>note_in. validate_NoteUpdate body = Some note_in \<and>
                 n_title n1 = assigned (nu_title note_in) (n_title n) \<and>
                 n_body n1 = assigned (nu_body note_in) (n_body n))) \<and>
           filter (\<lambda>m. n_id m \<noteq> i) (note_rows d1) = filter (\<lambda>m. n_id m \<noteq> i) (note_rows d)"
proof -
  note g = get_current_user_Inr(1) [OF auth]
  from existing have f: "find (\<lambda>m. n_id m = i \<and> n_user_id m = u_id owner) (note_rows d) = Some n"
    by (simp add: crud_note_get_note_def)
  then have nin: "n \<in> set (note_rows d)" and ni: "n_id n = i" and no: "n_user_id n = u_id owner"
    by (auto dest: find_SomeD)
  from wf have dist: "distinct (map n_id (note_rows d))"
    by (simp add: wf_db_def)
  from wf nin have title: "n_title n \<noteq> None"
    by (auto simp: wf_db_def)
  let ?d2 = "issue (SELECT NotesTable) (issue (SELECT UsersTable) d)"
  have dist2: "distinct (map n_id (note_rows ?d2))" and nin2: "n \<in> set (note_rows ?d2)"
    using dist nin by simp_all
  show ?thesis
  proof (cases "validate_NoteUpdate body")
    case None
    then have "update_note d now authorization i body =
        (request_validation_error, issue (SELECT UsersTable) d)"
      unfolding update_note_def g by simp
    with result have "r = request_validation_error" "d1 = issue (SELECT UsersTable) d"
      by simp_all
    then show ?thesis
      by (simp add: crud_note_get_note_def f request_validation_error_def)
  next
    case (Some note_in)
    note u = update_note_existing [OF auth existing Some]
    let ?t = "assigned (nu_title note_in) (n_title n)"
    let ?b = "assigned (nu_body note_in) (n_body n)"
    let ?n1 = "n\<lparr>n_title := ?t, n_body := ?b, n_updated_at := now\<rparr>"
    consider (same) "?t = n_title n" "?b = n_body n"
      | (null) "?t = None"
      | (changed) "?t \<noteq> None" "?t \<noteq> n_title n \<or> ?b \<noteq> n_body n"
      by blast
    then show ?thesis
    proof cases
      case same
      from u crud_note_update_note_unchanged [OF dist2 nin2 title same, of now] result
      have "r = note_response 200 n" "note_rows d1 = note_rows d"
        by auto
      with same show ?thesis
        by (simp add: crud_note_get_note_def f Some)
    next
      case null
      from u crud_note_update_note_null_title [OF dist2 nin2 title null, of now] result
      have "r = internal_server_error" "note_rows d1 = note_rows d"
        by auto
      then show ?thesis
        by (simp add: crud_note_get_note_def f internal_server_error_def)
    next
      case changed
      from u crud_note_update_note_changed [OF dist2 nin2 title changed refl, of now] result
      have r: "r = note_response 200 ?n1"
        and rows: "note_rows d1 = map (\<lambda>r. if n_id r = n_id n then ?n1 else r) (note_rows d)"
        by auto
      have f1: "find (\<lambda>m. n_id m = i \<and> n_user_id m = u_id owner)
          (map (\<lambda>r. if n_id r = n_id n then ?n1 else r) (note_rows d)) = Some ?n1"
        using find_replace [OF dist f, of ?n1] ni no by simp
      have fl: "filter (\<lambda>m. n_id m \<noteq> i) (map (\<lambda>r. if n_id r = n_id n then ?n1 else r) (note_rows d)) =
          filter (\<lambda>m. n_id m \<noteq> i) (note_rows d)"
        using filter_other_rows [of ?n1 i "note_rows d"] ni by simp
      have st: "status_code r = 200"
        using note_response_200 [of ?n1] changed(1) r by simp
      have get: "fst (crud_note_get_note d1 i (u_id owner)) = Some ?n1"
        by (simp add: crud_note_get_note_def rows f1)
      show ?thesis
        using get st r changed fl rows Some by auto
    qed
  qed
qed

lemma validate_NoteUpdate_fields:
  assumes "validate_NoteUpdate body = Some note_in"
  shows "body ''title'' = None \<Longrightarrow> nu_title note_in = Unset"
    and "body ''body'' = None \<Longrightarrow> nu_body note_in = Unset"
    and "body ''title'' = Some JNull \<Longrightarrow> nu_title note_in = IsSet None"
    and "body ''body'' = Some JNull \<Longrightarrow> nu_body note_in = IsSet None"
    and "body ''title'' = Some (JStr s) \<Longrightarrow> nu_title note_in = IsSet (Some s)"
    and "body ''body'' = Some (JStr s) \<Longrightarrow> nu_body note_in = IsSet (Some s)"
  using assms
  by (auto simp: validate_NoteUpdate_def validate_optional_str_def
      split: option.splits json.splits)

text \<open>
  Claim C4. An update request on an existing note of the caller, whatever its body, leaves
  the note stored under the same id, owner and creation time; a field whose key is absent
  from the body keeps its value; when the request is answered 200, the response is the
  stored note and a field whose key is present has the value supplied; and no other note
  row changes.
\<close>

theorem partial_update_frame:
  assumes wf: "wf_db d"
    and auth: "fst (get_current_user d now authorization) = Inr owner"
    and existing: "fst (crud_note_get_note d i (u_id owner)) = Some n"
    and result: "update_note d now authorization i body = (r, d1)"
  shows "\<exists>n1. fst (crud_note_get_note d1 i (u_id owner)) = Some n1 \<and>
           n_id n1 = n_id n \<and> n_user_id n1 = n_user_id n \<and> n_created_at n1 = n_created_at n \<and>
           (body ''title'' = None \<longrightarrow> n_title n1 = n_title n) \<and>
           (body ''body'' = None \<longrightarrow> n_body n1 = n_body n) \<and>
           (status_code r = 200 \<longrightarrow>
              r = note_response 200 n1 \<and>
              (\<forall>s. body ''title'' = Some (JStr s) \<longrightarrow> n_title n1 = Some s) \<and>
              (\<forall>s. body ''body'' = Some (JStr s) \<longrightarrow> n_body n1 = Some s) \<and>
              (body ''body'' = Some JNull \<longrightarrow> n_body n1 = None)) \<and>
           filter (\<lambda>m. n_id m \<noteq> i) (note_rows d1) = filter (\<lambda>m. n_id m \<noteq> i) (note_rows d)"
proof -
  from update_note_stored [OF wf auth existing result] obtain n1 where
    get: "fst (crud_note_get_note d1 i (u_id owner)) = Some n1"
    and how: "n1 = n \<or>
            (\<exists>note_in. validate_NoteUpdate body = Some note_in \<and>
               assigned (nu_title note_in) (n_title n) \<noteq> None \<and>
               (assigned (nu_title note_in) (n_title n) \<noteq> n_title n \<or>
                assigned (nu_body note_in) (n_body n) \<noteq> n_body n) \<and>
               status_code r = 200 \<and>
               n1 = n\<lparr>n_title := assigned (nu_title note_in) (n_title n),
                      n_body := assigned (nu_body note_in) (n_body n),
                      n_updated_at := now\<rparr>)"
    and ok: "status_code r = 200 \<longrightarrow>
              r = note_response 200 n1 \<and>
              (\<exists>note_in. validate_NoteUpdate body = Some note_in \<and>
                 n_title n1 = assigned (nu_title note_in) (n_title n) \<and>
                 n_body n1 = assigned (nu_body note_in) (n_body n))"
    and others: "filter (\<lambda>m. n_id m \<noteq> i) (note_rows d1) = filter (\<lambda>m. n_id m \<noteq> i) (note_rows d)"
    by blast
  from how have keys: "n_id n1 = n_id n \<and> n_user_id n1 = n_user_id n \<and> n_created_at n1 = n_created_at n"
    by auto
  from how have unset: "(body ''title'' = None \<longrightarrow> n_title n1 = n_title n) \<and>
      (body ''body'' = None \<longrightarrow> n_body n1 = n_body n)"
    by (auto simp: assigned_def dest: validate_NoteUpdate_fields)
  from ok have set: "status_code r = 200 \<longrightarrow>
      (\<forall>s. body ''title'' = Some (JStr s) \<longrightarrow> n_title n1 = Some s) \<and>
      (\<forall>s. body ''body'' = Some (JStr s) \<longrightarrow> n_body n1 = Some s) \<and>
      (body ''body'' = Some JNull \<longrightarrow> n_body n1 = None)"
    by (auto simp: assigned_def dest: validate_NoteUpdate_fields)
  show ?thesis
    by (rule exI [of _ n1]) (use get keys unset ok set others in simp)
qed

text \<open>
  Claim C5, as amended. After an update request on an existing note of the caller,
  \<open>updated_at\<close> is the clock's reading of the request when the request is answered 200 and
  has changed the title or the body, hence strictly greater than before whenever the
  clock has advanced past the previous value; in every other case, among them a body
  that sets no field or sets the values the note already has, \<open>updated_at\<close> keeps its
  value.
\<close>

theorem updated_at_refreshed_on_change:
  assumes wf: "wf_db d"
    and auth: "fst (get_current_user d now authorization) = Inr owner"
    and existing: "fst (crud_note_get_note d i (u_id owner)) = Some n"
    and result: "update_note d now authorization i body = (r, d1)"
  shows "\<exists>n1. fst (crud_note_get_note d1 i (u_id owner)) = Some n1 \<and>
           (if status_code r = 200 \<and> (n_title n1 \<noteq> n_title n \<or> n_body n1 \<noteq> n_body n)
            then n_updated_at n1 = now \<and> (n_updated_at n < now \<longrightarrow> n_updated_at n < n_updated_at n1)
            else n_updated_at n1 = n_updated_at n)"
proof -
  from update_note_stored [OF wf auth existing result] obtain n1 where
    get: "fst (crud_note_get_note d1 i (u_id owner)) = Some n1"
    and how: "n1 = n \<or>
            (\<exists>note_in. validate_NoteUpdate body = Some note_in \<and>
               assigned (nu_title note_in) (n_title n) \<noteq> None \<and>
               (assigned (nu_title note_in) (n_title n) \<noteq> n_title n \<or>
                assigned (nu_body note_in) (n_body n) \<noteq> n_body n) \<and>
               status_code r = 200 \<and>
               n1 = n\<lparr>n_title := assigned (nu_title note_in) (n_title n),
                      n_body := assigned (nu_body note_in) (n_body n),
                      n_updated_at := now\<rparr>)"
    by blast
  from how have "if status_code r = 200 \<and> (n_title n1 \<noteq> n_title n \<or> n_body n1 \<noteq> n_body n)
            then n_updated_at n1 = now \<and> (n_updated_at n < now \<longrightarrow> n_updated_at n < n_updated_at n1)
            else n_updated_at n1 = n_updated_at n"
    by auto
  with get show ?thesis by blast
qed

lemma example_get:
  "fst (crud_note_get_note example_db 1 (u_id alice)) = Some shopping"
  by (simp add: crud_note_get_note_def example_db_def shopping_def alice_def)

lemma example_update_empty:
  "update_note example_db 40 alice_token 1 empty_update =
     (note_response 200 shopping,
      issue (SELECT NotesTable) (issue (SELECT NotesTable) (issue (SELECT UsersTable) example_db)))"
proof -
  have v: "validate_NoteUpdate empty_update = Some \<lparr>nu_title = Unset, nu_body = Unset\<rparr>"
    by (simp add: validate_NoteUpdate_def validate_optional_str_def empty_update_def)
  have n: "shopping \<in> set (note_rows (issue (SELECT NotesTable) (issue (SELECT UsersTable) example_db)))"
    and dist: "distinct (map n_id (note_rows (issue (SELECT NotesTable) (issue (SELECT UsersTable) example_db))))"
    and t: "n_title shopping \<noteq> None"
    by (simp_all add: example_db_def shopping_def)
  show ?thesis
    unfolding update_note_existing [OF example_auth(1) example_get v]
    by (simp add: crud_note_update_note_unchanged [OF dist n t] assigned_def)
qed

text \<open>
  Claim C5 as stated fails: Alice updates her note at clock 40 with a body that sets no
  field. The request is answered 200 and \<open>updated_at\<close> is 30 before and after.
\<close>

theorem updated_at_unchanged_by_empty_update:
  "status_code (fst (update_note example_db 40 alice_token 1 empty_update)) = 200 \<and>
   map n_updated_at (note_rows example_db) = [30] \<and>
   map n_updated_at (note_rows (snd (update_note example_db 40 alice_token 1 empty_update))) = [30] \<and>
   \<not> (n_updated_at (hd (note_rows example_db)) <
      n_updated_at (hd (note_rows (snd (update_note example_db 40 alice_token 1 empty_update)))))"
  unfolding example_update_empty
  by (simp add: note_response_def NoteRead_def example_db_def shopping_def)

lemma example_stored:
  "distinct (map n_id (note_rows (issue (SELECT NotesTable) (issue (SELECT UsersTable) example_db))))"
  "shopping \<in> set (note_rows (issue (SELECT NotesTable) (issue (SELECT UsersTable) example_db)))"
  "distinct (map n_id (note_rows example_db))"
  "shopping \<in> set (note_rows example_db)"
  "n_title shopping \<noteq> None"
  by (simp_all add: example_db_def shopping_def)

lemma example_update_title:
  "fst (update_note example_db 40 alice_token 1 title_update) =
     note_response 200 (shopping\<lparr>n_title := Some ''Groceries'', n_updated_at := 40\<rparr>)"
proof -
  have v: "validate_NoteUpdate title_update = Some \<lparr>nu_title = IsSet (Some ''Groceries''), nu_body = Unset\<rparr>"
    by (simp add: validate_NoteUpdate_def validate_optional_str_def title_update_def)
  have c: "crud_note_update_note (issue (SELECT NotesTable) (issue (SELECT UsersTable) example_db)) 40
      shopping \<lparr>nu_title = IsSet (Some ''Groceries''), nu_body = Unset\<rparr> =
      (Inr (shopping\<lparr>n_title := Some ''Groceries'', n_updated_at := 40\<rparr>),
       issue (SELECT NotesTable) (issue (UPDATE NotesTable)
         (issue (SELECT NotesTable) (issue (SELECT UsersTable) example_db))
         \<lparr>note_rows := map (\<lambda>r. if n_id r = n_id shopping
             then shopping\<lparr>n_title := Some ''Groceries'', n_updated_at := 40\<rparr> else r)
           (note_rows (issue (SELECT NotesTable) (issue (SELECT UsersTable) example_db)))\<rparr>))"
    by (rule crud_note_update_note_changed [OF example_stored(1,2,5)])
      (simp_all add: assigned_def shopping_def)
  show ?thesis
    unfolding update_note_existing [OF example_auth(1) example_get v] c by simp
qed

theorem partial_update_frame_witness:
  "\<exists>n1. fst (crud_note_get_note (snd (update_note example_db 40 alice_token 1 title_update)) 1
            (u_id alice)) = Some n1 \<and>
      n_title n1 = Some ''Groceries'' \<and> n_body n1 = n_body shopping \<and>
      n_id n1 = n_id shopping \<and> n_user_id n1 = n_user_id shopping \<and>
      n_created_at n1 = n_created_at shopping"
proof -
  have s: "status_code (fst (update_note example_db 40 alice_token 1 title_update)) = 200"
    unfolding example_update_title by (simp add: note_response_def NoteRead_def shopping_def)
  have k: "title_update ''body'' = None" "title_update ''title'' = Some (JStr ''Groceries'')"
    by (simp_all add: title_update_def)
  from partial_update_frame [OF example_wf example_auth(1) example_get surjective_pairing,
      of title_update] s k
  show ?thesis by auto
qed

theorem updated_at_refreshed_on_change_witness:
  "\<exists>n1. fst (crud_note_get_note (snd (update_note example_db 40 alice_token 1 title_update)) 1
            (u_id alice)) = Some n1 \<and>
      n_updated_at n1 = 40 \<and> n_updated_at shopping < n_updated_at n1"
proof -
  have s: "status_code (fst (update_note example_db 40 alice_token 1 title_update)) = 200"
    unfolding example_update_title by (simp add: note_response_def NoteRead_def shopping_def)
  have v: "validate_NoteUpdate title_update =
      Some \<lparr>nu_title = IsSet (Some ''Groceries''), nu_body = Unset\<rparr>"
    by (simp add: validate_NoteUpdate_def validate_optional_str_def title_update_def)
  from update_note_stored [OF example_wf example_auth(1) example_get surjective_pairing,
      of title_update] s v
  obtain m where m: "fst (crud_note_get_note (snd (update_note example_db 40 alice_token 1 title_update)) 1
            (u_id alice)) = Some m" "n_title m = Some ''Groceries''"
    by (auto simp: assigned_def)
  from updated_at_refreshed_on_change [OF example_wf example_auth(1) example_get surjective_pairing,
      of title_update] s m
  show ?thesis by (auto simp: shopping_def)
qed



section \<open>Well-formedness is preserved\<close>

lemma wf_db_cong:
  assumes "user_rows d' = user_rows d" and "note_rows d' = note_rows d"
    and "users_id_seq d' = users_id_seq d" and "notes_id_seq d' = notes_id_seq d"
  shows "wf_db d' = wf_db d"
  by (simp add: wf_db_def assms)

lemma wf_db_issue [simp]: "wf_db (issue s d) = wf_db d"
  by (rule wf_db_cong) simp_all

lemma get_current_user_store:
  "snd (get_current_user d now authorization) = d \<or>
   snd (get_current_user d now authorization) = issue (SELECT UsersTable) d"
  by (simp add: get_current_user_def crud_user_get_user_by_username_def split: option.splits)

lemma wf_db_get_current_user:
  "wf_db (snd (get_current_user d now authorization)) = wf_db d"
  using get_current_user_store [of d now authorization] by auto

lemma denied:
  assumes "fst (get_current_user d now authorization) = Inl x"
  shows "create_note d now authorization body created_now updated_now =
         (x, snd (get_current_user d now authorization))"
    and "refuse_body d now authorization = (x, snd (get_current_user d now authorization))"
    and "read_notes d now authorization skip limit = (x, snd (get_current_user d now authorization))"
    and "read_note d now authorization i = (x, snd (get_current_user d now authorization))"
    and "update_note d now authorization i body = (x, snd (get_current_user d now authorization))"
    and "delete_note d now authorization i = (x, snd (get_current_user d now authorization))"
  using assms
  by (cases "get_current_user d now authorization";
      simp add: create_note_def refuse_body_def read_notes_def read_note_def update_note_def
        delete_note_def)+

lemma wf_db_register: "wf_db d \<Longrightarrow> wf_db (snd (register d now salt body))"
  by (auto simp: register_cases wf_db_def split: option.splits)

lemma wf_db_login: "wf_db d \<Longrightarrow> wf_db (snd (login d now body))"
  by (auto simp: login_def crud_user_authenticate_user_def crud_user_get_user_by_username_def
      split: option.splits)

lemma wf_db_refuse_body: "wf_db d \<Longrightarrow> wf_db (snd (refuse_body d now authorization))"
  by (cases "get_current_user d now authorization"; cases "fst (get_current_user d now authorization)")
    (use wf_db_get_current_user [of d now authorization] in \<open>auto simp: refuse_body_def\<close>)

lemma wf_db_create_note:
  assumes "wf_db d"
  shows "wf_db (snd (create_note d now authorization body created_now updated_now))"
proof (cases "fst (get_current_user d now authorization)")
  case (Inl denied)
  from denied(1) [OF Inl]
  have "snd (create_note d now authorization body created_now updated_now) =
      snd (get_current_user d now authorization)"
    by simp
  with assms show ?thesis by (simp add: wf_db_get_current_user)
next
  case (Inr u)
  note g = get_current_user_Inr [OF Inr]
  show ?thesis
  proof (cases "validate_NoteCreate body")
    case None
    with assms show ?thesis by (simp add: create_note_def g(1))
  next
    case (Some note_in)
    with assms g(2) show ?thesis
      by (auto simp: create_note_def g(1) crud_note_create_note_def Let_def wf_db_def)
  qed
qed

lemma wf_db_read_notes: "wf_db d \<Longrightarrow> wf_db (snd (read_notes d now authorization skip limit))"
proof (cases "fst (get_current_user d now authorization)")
  case (Inl denied)
  assume "wf_db d"
  from denied [OF Inl] have "snd (read_notes d now authorization skip limit) = snd (get_current_user d now authorization)"
    by simp
  with \<open>wf_db d\<close> show ?thesis by (simp add: wf_db_get_current_user)
next
  case (Inr u)
  assume "wf_db d"
  then show ?thesis
    by (simp add: read_notes_def get_current_user_Inr(1) [OF Inr] crud_note_get_notes_def
        split: option.splits)
qed

lemma wf_db_read_note: "wf_db d \<Longrightarrow> wf_db (snd (read_note d now authorization i))"
proof (cases "fst (get_current_user d now authorization)")
  case (Inl denied)
  assume "wf_db d"
  from denied [OF Inl] have "snd (read_note d now authorization i) = snd (get_current_user d now authorization)"
    by simp
  with \<open>wf_db d\<close> show ?thesis by (simp add: wf_db_get_current_user)
next
  case (Inr u)
  assume "wf_db d"
  then show ?thesis
    by (simp add: read_note_def get_current_user_Inr(1) [OF Inr] crud_note_get_note_def
        split: option.splits)
qed

lemma wf_db_delete_note: "wf_db d \<Longrightarrow> wf_db (snd (delete_note d now authorization i))"
proof (cases "fst (get_current_user d now authorization)")
  case (Inl denied)
  assume "wf_db d"
  from denied [OF Inl] have "snd (delete_note d now authorization i) = snd (get_current_user d now authorization)"
    by simp
  with \<open>wf_db d\<close> show ?thesis by (simp add: wf_db_get_current_user)
next
  case (Inr u)
  assume "wf_db d"
  then show ?thesis
    by (auto simp: delete_note_def get_current_user_Inr(1) [OF Inr] crud_note_get_note_def
        crud_note_delete_note_def wf_db_def distinct_map_filter split: option.splits)
qed

lemma wf_db_replace_row:
  assumes "wf_db d" and "n \<in> set (note_rows d)" and "n_id n1 = n_id n"
    and "n_user_id n1 = n_user_id n" and "n_title n1 \<noteq> None"
    and "user_rows d' = user_rows d" and "users_id_seq d' = users_id_seq d"
    and "notes_id_seq d' = notes_id_seq d"
    and "note_rows d' = map (\<lambda>r. if n_id r = n_id n then n1 else r) (note_rows d)"
  shows "wf_db d'"
proof -
  have ids: "map n_id (map (\<lambda>r. if n_id r = n_id n then n1 else r) (note_rows d)) = map n_id (note_rows d)"
    using assms(3) by (induction "note_rows d") auto
  show ?thesis
    using assms ids unfolding wf_db_def
    by (auto simp del: map_map split: if_splits)
qed

lemma wf_db_update_note:
  assumes wf: "wf_db d"
  shows "wf_db (snd (update_note d now authorization i body))"
proof (cases "fst (get_current_user d now authorization)")
  case (Inl denied)
  from denied [OF Inl] have "snd (update_note d now authorization i body) = snd (get_current_user d now authorization)"
    by simp
  with wf show ?thesis by (simp add: wf_db_get_current_user)
next
  case (Inr owner)
  note g = get_current_user_Inr(1) [OF Inr]
  show ?thesis
  proof (cases "validate_NoteUpdate body")
    case None
    with wf show ?thesis by (simp add: update_note_def g)
  next
    case (Some note_in)
    show ?thesis
    proof (cases "fst (crud_note_get_note d i (u_id owner))")
      case None
      with wf Some show ?thesis
        by (simp add: update_note_def g crud_note_get_note_def)
    next
      case found: (Some n)
      then have f: "find (\<lambda>m. n_id m = i \<and> n_user_id m = u_id owner) (note_rows d) = Some n"
        by (simp add: crud_note_get_note_def)
      then have nin: "n \<in> set (note_rows d)"
        by (auto dest: find_SomeD)
      from wf have dist: "distinct (map n_id (note_rows d))"
        by (simp add: wf_db_def)
      from wf nin have title: "n_title n \<noteq> None"
        by (auto simp: wf_db_def)
      let ?d2 = "issue (SELECT NotesTable) (issue (SELECT UsersTable) d)"
      have dist2: "distinct (map n_id (note_rows ?d2))" and nin2: "n \<in> set (note_rows ?d2)"
        using dist nin by simp_all
      note u = update_note_existing [OF Inr found Some]
      let ?t = "assigned (nu_title note_in) (n_title n)"
      let ?b = "assigned (nu_body note_in) (n_body n)"
      let ?n1 = "n\<lparr>n_title := ?t, n_body := ?b, n_updated_at := now\<rparr>"
      consider (same) "?t = n_title n" "?b = n_body n"
        | (null) "?t = None"
        | (changed) "?t \<noteq> None" "?t \<noteq> n_title n \<or> ?b \<noteq> n_body n"
        by blast
      then show ?thesis
      proof cases
        case same
        with wf show ?thesis
          unfolding u crud_note_update_note_unchanged [OF dist2 nin2 title same] by simp
      next
        case null
        with wf show ?thesis
          unfolding u crud_note_update_note_null_title [OF dist2 nin2 title null] by simp
      next
        case changed
        show ?thesis
          unfolding u crud_note_update_note_changed [OF dist2 nin2 title changed refl]
          by (rule wf_db_replace_row [OF wf nin, of ?n1]) (use changed in simp_all)
      qed
    qed
  qed
qed

lemma wf_db_auth_router: "wf_db d \<Longrightarrow> wf_db (snd (auth_router d now r))"
  by (cases "(d, now, r)" rule: auth_router.cases) (simp_all add: wf_db_register wf_db_login)

lemma wf_db_notes_router: "wf_db d \<Longrightarrow> wf_db (snd (notes_router d now authorization r))"
  by (cases "(d, now, authorization, r)" rule: notes_router.cases)
    (simp_all add: wf_db_create_note wf_db_refuse_body wf_db_read_notes wf_db_read_note
      wf_db_update_note wf_db_delete_note)

lemma wf_db_app: "wf_db d \<Longrightarrow> wf_db (snd (app d now r))"
  by (cases r) (simp_all add: wf_db_auth_router wf_db_notes_router)

lemma wf_db_serve: "wf_db d \<Longrightarrow> wf_db (snd (serve d rs))"
proof (induction rs arbitrary: d)
  case Nil
  then show ?case by simp
next
  case (Cons x rs)
  obtain now r where x: "x = (now, r)" by (cases x)
  from Cons.prems have "wf_db (snd (app d now r))" by (rule wf_db_app)
  from Cons.IH [OF this] show ?case
    by (cases "app d now r"; cases "serve (snd (app d now r)) rs") (simp add: x)
qed

lemma wf_db_init: "wf_db init_db"
  by (simp add: wf_db_def init_db_def)

text \<open>Every store the application can reach from the empty one is well-formed.\<close>

lemma wf_db_reachable: "wf_db (snd (serve init_db rs))"
  by (rule wf_db_serve [OF wf_db_init])

section \<open>Creating and reading back a note\<close>

lemma get_current_user_Inl:
  "fst (get_current_user d now authorization) = Inl x \<Longrightarrow> status_code x = 401"
  by (auto simp: get_current_user_def crud_user_get_user_by_username_def http_exception_def
      split: option.splits)

lemma get_current_user_note_rows:
  "note_rows (snd (get_current_user d now authorization)) = note_rows d"
  "notes_id_seq (snd (get_current_user d now authorization)) = notes_id_seq d"
  using get_current_user_store [of d now authorization] by auto





section \<open>Deleting a note\<close>

lemma deleted_rows:
  assumes "delete_note d now authorization i = (r, d1)" and "status_code r = 204"
  shows "\<forall>m \<in> set (note_rows d1). n_id m \<noteq> i"
    and "\<exists>n \<in> set (note_rows d). n_id n = i"
    and "notes_id_seq d1 = notes_id_seq d"
proof -
  have "(\<forall>m \<in> set (note_rows d1). n_id m \<noteq> i) \<and> (\<exists>n \<in> set (note_rows d). n_id n = i) \<and>
      notes_id_seq d1 = notes_id_seq d"
  proof (cases "fst (get_current_user d now authorization)")
    case (Inl x)
    from denied(6) [OF Inl, of i] get_current_user_Inl [OF Inl] assms show ?thesis
      by simp
  next
    case (Inr u)
    note g = get_current_user_Inr(1) [OF Inr]
    show ?thesis
    proof (cases "find (\<lambda>m. n_id m = i \<and> n_user_id m = u_id u) (note_rows d)")
      case None
      with assms show ?thesis
        by (auto simp: delete_note_def g crud_note_get_note_def note_not_found_def http_exception_def)
    next
      case (Some n)
      then have "n_id n = i" "n \<in> set (note_rows d)" by (auto dest: find_SomeD)
      with Some assms show ?thesis
        by (auto simp: delete_note_def g crud_note_get_note_def crud_note_delete_note_def)
    qed
  qed
  then show "\<forall>m \<in> set (note_rows d1). n_id m \<noteq> i"
    and "\<exists>n \<in> set (note_rows d). n_id n = i"
    and "notes_id_seq d1 = notes_id_seq d"
    by simp_all
qed

lemma gone_authenticated:
  assumes gone: "\<forall>m \<in> set (note_rows d). n_id m \<noteq> i"
    and auth: "fst (get_current_user d now authorization) = Inr u"
  shows "fst (read_note d now authorization i) = note_not_found i"
    and "validate_NoteUpdate body \<noteq> None \<Longrightarrow>
         fst (update_note d now authorization i body) = note_not_found i"
    and "fst (delete_note d now authorization i) = note_not_found i"
    and "validate_NoteUpdate body = None \<Longrightarrow>
         fst (update_note d now authorization i body) = request_validation_error"
    and "fst (refuse_body d now authorization) = request_validation_error"
proof -
  from gone have f: "find (\<lambda>m. n_id m = i \<and> n_user_id m = u_id u) (note_rows d) = None"
    by (auto simp: find_None_iff)
  note g = get_current_user_Inr(1) [OF auth]
  show "fst (read_note d now authorization i) = note_not_found i"
    and "fst (delete_note d now authorization i) = note_not_found i"
    and "fst (refuse_body d now authorization) = request_validation_error"
    by (simp_all add: read_note_def delete_note_def refuse_body_def g crud_note_get_note_def f)
  show "validate_NoteUpdate body \<noteq> None \<Longrightarrow>
         fst (update_note d now authorization i body) = note_not_found i"
    by (auto simp: update_note_def g crud_note_get_note_def f)
  show "validate_NoteUpdate body = None \<Longrightarrow>
         fst (update_note d now authorization i body) = request_validation_error"
    by (simp add: update_note_def g)
qed

text \<open>A request on a note id that no row has is never answered with a success.\<close>

lemma gone_step:
  assumes gone: "\<forall>m \<in> set (note_rows d). n_id m \<noteq> i" and q: "on_note i q"
  shows "fst (app d now q) = note_not_found i \<or> status_code (fst (app d now q)) = 401 \<or>
         status_code (fst (app d now q)) = 422"
proof -
  from q obtain authorization nq where nq: "q = Notes authorization nq"
    and shape: "nq = ReadNote i \<or> (\<exists>p. nq = UpdateNote i p) \<or> nq = DeleteNote i"
    by (cases "(i, q)" rule: on_note.cases) auto
  show ?thesis
  proof (cases "fst (get_current_user d now authorization)")
    case (Inl x)
    note dn = denied [OF Inl] and st = get_current_user_Inl [OF Inl]
    from shape show ?thesis
    proof (elim disjE exE)
      fix p assume "nq = UpdateNote i p"
      then show ?thesis
        using dn st by (cases p) (simp_all add: nq request_validation_error_def)
    qed (use dn st in \<open>simp_all add: nq\<close>)
  next
    case (Inr u)
    note a = gone_authenticated [OF gone Inr]
    from shape show ?thesis
    proof (elim disjE exE)
      assume "nq = ReadNote i"
      with a(1) show ?thesis by (simp add: nq)
    next
      fix p assume u: "nq = UpdateNote i p"
      show ?thesis
      proof (cases p)
        case Undecodable
        then show ?thesis by (simp add: nq u request_validation_error_def)
      next
        case NotAnObject
        with a(5) show ?thesis by (simp add: nq u request_validation_error_def)
      next
        case (Object body)
        show ?thesis
        proof (cases "validate_NoteUpdate body")
          case None
          from a(4) [OF None] show ?thesis
            by (simp add: nq u Object request_validation_error_def)
        next
          case (Some note_in)
          then have "validate_NoteUpdate body \<noteq> None" by simp
          from a(2) [OF this] show ?thesis
            by (simp add: nq u Object)
        qed
      qed
    next
      assume "nq = DeleteNote i"
      with a(3) show ?thesis by (simp add: nq)
    qed
  qed
qed

text \<open>
  The ids of the note rows after a request are ids of rows before it, or the value the
  sequence had; the sequence never goes back.
\<close>

lemma map_keeps_ids:
  "(\<And>r. n_id (F r) = n_id r) \<Longrightarrow> map n_id (map (\<lambda>r. if C r then F r else r) rows) = map n_id rows"
  by (induction rows) auto

lemma flush_update_note_ids:
  assumes "flush_update_note d now loaded note = Inr d1"
  shows "map n_id (note_rows d1) = map n_id (note_rows d)" and "notes_id_seq d1 = notes_id_seq d"
  using assms
  by (auto simp: flush_update_note_def Let_def map_keeps_ids simp del: map_map split: if_splits)

lemma crud_note_update_note_ids:
  "map n_id (note_rows (snd (crud_note_update_note d now n note_in))) = map n_id (note_rows d)"
  "notes_id_seq (snd (crud_note_update_note d now n note_in)) = notes_id_seq d"
  by (auto simp: crud_note_update_note_def Let_def refresh_note_def
      dest: flush_update_note_ids split: sum.splits option.splits)

lemma fresh_ids_create_note:
  "n_id ` set (note_rows (snd (create_note d now authorization body created_now updated_now)))
     \<subseteq> insert (notes_id_seq d) (n_id ` set (note_rows d)) \<and>
   notes_id_seq d \<le> notes_id_seq (snd (create_note d now authorization body created_now updated_now))"
proof (cases "fst (get_current_user d now authorization)")
  case (Inl x)
  from denied(1) [OF Inl, of body created_now updated_now]
    get_current_user_note_rows [of d now authorization]
  show ?thesis by auto
next
  case (Inr u)
  show ?thesis
    by (auto simp: create_note_def get_current_user_Inr(1) [OF Inr] crud_note_create_note_def
        Let_def split: option.splits)
qed

lemma fresh_ids_update_note:
  "n_id ` set (note_rows (snd (update_note d now authorization i body))) \<subseteq> n_id ` set (note_rows d) \<and>
   notes_id_seq (snd (update_note d now authorization i body)) = notes_id_seq d"
proof (cases "fst (get_current_user d now authorization)")
  case (Inl x)
  from denied(5) [OF Inl, of i body] get_current_user_note_rows [of d now authorization]
  show ?thesis by auto
next
  case (Inr u)
  note g = get_current_user_Inr(1) [OF Inr]
  show ?thesis
  proof (cases "validate_NoteUpdate body")
    case None
    then show ?thesis by (simp add: update_note_def g)
  next
    case (Some note_in)
    show ?thesis
    proof (cases "find (\<lambda>m. n_id m = i \<and> n_user_id m = u_id u) (note_rows d)")
      case None
      with Some show ?thesis by (simp add: update_note_def g crud_note_get_note_def)
    next
      case found: (Some n)
      let ?d2 = "issue (SELECT NotesTable) (issue (SELECT UsersTable) d)"
      have u: "snd (update_note d now authorization i body) = snd (crud_note_update_note ?d2 now n note_in)"
        by (simp add: update_note_def g Some crud_note_get_note_def found split: prod.splits sum.splits)
      have "set (map n_id (note_rows (snd (crud_note_update_note ?d2 now n note_in)))) =
          set (map n_id (note_rows ?d2))"
        by (simp only: crud_note_update_note_ids)
      then show ?thesis
        by (simp add: u crud_note_update_note_ids(2))
    qed
  qed
qed

lemma fresh_ids_other:
  "note_rows (snd (register d now salt body)) = note_rows d"
  "notes_id_seq (snd (register d now salt body)) = notes_id_seq d"
  "note_rows (snd (login d now body)) = note_rows d"
  "notes_id_seq (snd (login d now body)) = notes_id_seq d"
  by (auto simp: register_cases login_def crud_user_authenticate_user_def
      crud_user_get_user_by_username_def split: option.splits)

lemma fresh_ids_read_all:
  "note_rows (snd (read_notes d now authorization skip limit)) = note_rows d \<and>
   notes_id_seq (snd (read_notes d now authorization skip limit)) = notes_id_seq d \<and>
   note_rows (snd (read_note d now authorization i)) = note_rows d \<and>
   notes_id_seq (snd (read_note d now authorization i)) = notes_id_seq d \<and>
   note_rows (snd (refuse_body d now authorization)) = note_rows d \<and>
   notes_id_seq (snd (refuse_body d now authorization)) = notes_id_seq d"
proof (cases "fst (get_current_user d now authorization)")
  case (Inl x)
  from denied [OF Inl] get_current_user_note_rows [of d now authorization]
  show ?thesis by simp
next
  case (Inr u)
  show ?thesis
    by (simp add: read_notes_def read_note_def refuse_body_def get_current_user_Inr(1) [OF Inr]
        crud_note_get_notes_def crud_note_get_note_def split: option.splits)
qed

lemma fresh_ids_read:
  "note_rows (snd (read_notes d now authorization skip limit)) = note_rows d"
  "notes_id_seq (snd (read_notes d now authorization skip limit)) = notes_id_seq d"
  "note_rows (snd (read_note d now authorization i)) = note_rows d"
  "notes_id_seq (snd (read_note d now authorization i)) = notes_id_seq d"
  "note_rows (snd (refuse_body d now authorization)) = note_rows d"
  "notes_id_seq (snd (refuse_body d now authorization)) = notes_id_seq d"
  using fresh_ids_read_all [of d now authorization skip limit i] by simp_all

lemma fresh_ids_delete_note:
  "n_id ` set (note_rows (snd (delete_note d now authorization i))) \<subseteq> n_id ` set (note_rows d) \<and>
   notes_id_seq (snd (delete_note d now authorization i)) = notes_id_seq d"
proof (cases "fst (get_current_user d now authorization)")
  case (Inl x)
  from denied(6) [OF Inl, of i] get_current_user_note_rows [of d now authorization]
  show ?thesis by auto
next
  case (Inr u)
  show ?thesis
    by (auto simp: delete_note_def get_current_user_Inr(1) [OF Inr] crud_note_get_note_def
        crud_note_delete_note_def split: option.splits)
qed

lemma fresh_ids_app:
  "n_id ` set (note_rows (snd (app d now q))) \<subseteq> insert (notes_id_seq d) (n_id ` set (note_rows d)) \<and>
   notes_id_seq d \<le> notes_id_seq (snd (app d now q))"
proof (cases q)
  case (Auth r)
  then show ?thesis
    by (cases "(d, now, r)" rule: auth_router.cases) (auto simp: fresh_ids_other)
next
  case (Notes authorization r)
  show ?thesis
  proof (cases "(d, now, authorization, r)" rule: notes_router.cases)
    case (3 d' now' a' created_now updated_now body)
    with fresh_ids_create_note [of d now authorization body created_now updated_now]
    show ?thesis by (simp add: Notes)
  next
    case (8 d' now' a' note_id body)
    with fresh_ids_update_note [of d now authorization note_id body]
    show ?thesis by (auto simp: Notes)
  next
    case (9 d' now' a' note_id)
    with fresh_ids_delete_note [of d now authorization note_id]
    show ?thesis by (auto simp: Notes)
  qed (auto simp: Notes fresh_ids_read)
next
  case Health
  then show ?thesis by auto
qed

text \<open>An id below the sequence that no row has stays so under every request.\<close>

lemma gone_app:
  assumes "\<forall>m \<in> set (note_rows d). n_id m \<noteq> i" and "i < notes_id_seq d"
  shows "(\<forall>m \<in> set (note_rows (snd (app d now q))). n_id m \<noteq> i) \<and>
         i < notes_id_seq (snd (app d now q))"
  using fresh_ids_app [of d now q] assms by fastforce

lemma gone_serve:
  assumes "\<forall>m \<in> set (note_rows d). n_id m \<noteq> i" and "i < notes_id_seq d"
  shows "(\<forall>(q, x) \<in> set (zip rs (fst (serve d rs))). on_note i (snd q) \<longrightarrow>
            (x = note_not_found i \<or> status_code x = 401 \<or> status_code x = 422)) \<and>
         (\<forall>m \<in> set (note_rows (snd (serve d rs))). n_id m \<noteq> i)"
  using assms
proof (induction rs arbitrary: d)
  case Nil
  then show ?case by simp
next
  case (Cons x rs)
  obtain now q where x: "x = (now, q)" by (cases x)
  note here = gone_step [OF Cons.prems(1), of q now]
  note after = gone_app [OF Cons.prems, of now q]
  from Cons.IH [of "snd (app d now q)"] after
  have rest: "(\<forall>(q, x) \<in> set (zip rs (fst (serve (snd (app d now q)) rs))). on_note i (snd q) \<longrightarrow>
            (x = note_not_found i \<or> status_code x = 401 \<or> status_code x = 422)) \<and>
         (\<forall>m \<in> set (note_rows (snd (serve (snd (app d now q)) rs))). n_id m \<noteq> i)"
    by blast
  from here rest show ?case
    by (cases "app d now q"; cases "serve (snd (app d now q)) rs") (auto simp: x)
qed

text \<open>
  Claim C7. On a well-formed store, after a delete request on a note id has been answered
  204, let any sequence of requests follow, of any kind and by any caller. Every get,
  update and delete on that id among them is answered with the 404 of \<open>note_not_found\<close>,
  unless it is refused before the lookup as unauthenticated (401) or for its body (422);
  and in the store they leave, a get, an update with a valid body and a delete on that id
  by any authenticated caller are answered with that 404.
\<close>

theorem deleted_note_stays_gone:
  assumes wf: "wf_db d"
    and del: "delete_note d now authorization i = (r, d1)"
    and ok: "status_code r = 204"
    and d2: "d2 = snd (serve d1 rs)"
    and auth2: "fst (get_current_user d2 now2 authorization2) = Inr u"
  shows "(\<forall>(q, x) \<in> set (zip rs (fst (serve d1 rs))). on_note i (snd q) \<longrightarrow>
            (x = note_not_found i \<or> status_code x = 401 \<or> status_code x = 422)) \<and>
         fst (read_note d2 now2 authorization2 i) = note_not_found i \<and>
         (validate_NoteUpdate body \<noteq> None \<longrightarrow>
            fst (update_note d2 now2 authorization2 i body) = note_not_found i) \<and>
         fst (delete_note d2 now2 authorization2 i) = note_not_found i \<and>
         status_code (note_not_found i) = 404"
proof -
  note gone = deleted_rows [OF del ok]
  from gone(2) wf have "i < notes_id_seq d"
    by (auto simp: wf_db_def)
  with gone(3) have below: "i < notes_id_seq d1"
    by simp
  note s = gone_serve [OF gone(1) below, of rs]
  from s d2 have gone2: "\<forall>m \<in> set (note_rows d2). n_id m \<noteq> i"
    by simp
  note a = gone_authenticated [OF gone2 auth2]
  have "status_code (note_not_found i) = 404"
    by (simp add: note_not_found_def http_exception_def)
  with s a(1,3) a(2) [of body] show ?thesis
    by blast
qed

section \<open>The claims on the example store\<close>

lemma example_delete:
  "delete_note example_db 40 alice_token 1 =
     (Response 204 [] NoContent,
      issue (DELETE NotesTable) (issue (SELECT NotesTable) (issue (SELECT UsersTable) example_db)
        \<lparr>note_rows := []\<rparr>))"
  unfolding delete_note_def get_current_user_Inr(1) [OF example_auth(1)]
  by (simp add: crud_note_get_note_def crud_note_delete_note_def example_db_def shopping_def alice_def)

lemma example_later:
  "fst (get_current_user (snd (serve (snd (delete_note example_db 40 alice_token 1)) later_requests))
     47 alice_token) = Inr alice"
  by code_simp

lemma example_later_responses:
  "map status_code (fst (serve (snd (delete_note example_db 40 alice_token 1)) later_requests)) =
     [201, 404, 201, 200, 404, 404]"
  by code_simp

theorem deleted_note_stays_gone_witness:
  "status_code (fst (delete_note example_db 40 alice_token 1)) = 204 \<and>
   fst (read_note (snd (serve (snd (delete_note example_db 40 alice_token 1)) later_requests))
      47 alice_token 1) = note_not_found 1 \<and>
   fst (update_note (snd (serve (snd (delete_note example_db 40 alice_token 1)) later_requests))
      47 alice_token 1 title_update) = note_not_found 1 \<and>
   fst (delete_note (snd (serve (snd (delete_note example_db 40 alice_token 1)) later_requests))
      47 alice_token 1) = note_not_found 1"
proof -
  have ok: "status_code (fst (delete_note example_db 40 alice_token 1)) = 204"
    by (simp add: example_delete)
  have v: "validate_NoteUpdate title_update \<noteq> None"
    by (simp add: validate_NoteUpdate_def validate_optional_str_def title_update_def)
  from deleted_note_stays_gone [OF example_wf surjective_pairing ok refl example_later,
      where body = title_update] ok v
  show ?thesis by simp
qed




section \<open>The scenario of the specification\<close>

lemma scenario_statuses:
  "map status_code (fst (serve init_db scenario)) = [201, 200, 201, 200, 200, 204, 404]"
  by code_simp

lemma scenario_update:
  "fst (serve init_db scenario) ! 4 =
     Response 200 []
       (Obj [(''id'', JInt 1), (''title'', JStr ''Shopping''), (''body'', JStr ''milk''),
             (''created_at'', JTime 30), (''updated_at'', JTime 50)])"
  by code_simp

end
